theory Spec2Isabelle
  imports Complex_Main "HOL-Library.Word" "HOL-Library.Sublist"
begin

unbundle bit_operations_syntax

section \<open>Register map and constants (ENS160.ts, lines 10-38)\<close>

type_synonym byte = "8 word"

definition ENS160_I2CADDR :: nat where "ENS160_I2CADDR = 0x53"
definition ENS160_PARTID :: int where "ENS160_PARTID = 0x0160"
definition ENS160_CMD_PARTID :: nat where "ENS160_CMD_PARTID = 0x00"
definition ENS160_CMD_OPMODE :: nat where "ENS160_CMD_OPMODE = 0x10"
definition ENS160_CMD_COMMAND :: nat where "ENS160_CMD_COMMAND = 0x12"
definition ENS160_CMD_TEMPIN :: nat where "ENS160_CMD_TEMPIN = 0x13"
definition ENS160_CMD_RHIN :: nat where "ENS160_CMD_RHIN = 0x15"
definition ENS160_CMD_STATUS :: nat where "ENS160_CMD_STATUS = 0x20"
definition ENS160_CMD_AQI :: nat where "ENS160_CMD_AQI = 0x21"
definition ENS160_CMD_TVOC :: nat where "ENS160_CMD_TVOC = 0x22"
definition ENS160_CMD_ECO2 :: nat where "ENS160_CMD_ECO2 = 0x24"
definition ENS160_CMD_READGPR :: nat where "ENS160_CMD_READGPR = 0x48"

definition MODE_SLEEP :: int where "MODE_SLEEP = 0x00"
definition MODE_IDLE :: int where "MODE_IDLE = 0x01"
definition MODE_STANDARD :: int where "MODE_STANDARD = 0x02"
definition MODE_RESET :: int where "MODE_RESET = 0xf0"
definition VALID_MODES :: "int list" where
  "VALID_MODES = [MODE_SLEEP, MODE_IDLE, MODE_STANDARD, MODE_RESET]"

definition COMMAND_NOP :: int where "COMMAND_NOP = 0x00"
definition COMMAND_CLRGPR :: int where "COMMAND_CLRGPR = 0xcc"
definition COMMAND_GETAPPVER :: int where "COMMAND_GETAPPVER = 0x0e"

section \<open>The bus and the driver's effects\<close>

text \<open>
  Every method of the class is an async function that talks to \<open>this.bus\<close> and waits on
  timers. The model threads a trace of the effects performed so far: each timer wait and
  each bus transfer the driver issues is appended, whether the transfer succeeds or not.
  The bus itself is the external collaborator and stays a parameter: given the trace so
  far and the transfer requested it either rejects (\<open>None\<close>, the promise is rejected and
  the awaiting method throws) or resolves with the bytes the device delivers (ignored for
  a write).
\<close>

datatype event =
    Sleep nat
  | WriteBlock nat nat nat "byte list"
  | ReadBlock nat nat nat

type_synonym bus = "event list \<Rightarrow> event \<Rightarrow> byte list option"

text \<open>
  The values the driver throws: a rejected bus promise, \<open>new Error(`Invalid mode: ...`)\<close>
  in setMode, the string "Could not locate ENS160!" thrown by check, the string
  "Could not detect!" thrown by init, and the RangeError of Buffer's read methods.
\<close>

datatype error =
    BusError
  | InvalidMode int
  | IdentityMismatch
  | DeviceNotDetected
  | RangeError

type_synonym 'a io = "event list \<Rightarrow> (error + 'a) \<times> event list"

definition return :: "'a \<Rightarrow> 'a io" where
  "return v = (\<lambda>tr. (Inr v, tr))"

definition throw :: "error \<Rightarrow> 'a io" where
  "throw e = (\<lambda>tr. (Inl e, tr))"

text \<open>
  \<open>await m f\<close> runs \<open>m\<close> and continues with \<open>f\<close> on its value; an error thrown by \<open>m\<close>
  skips \<open>f\<close>. Every method body is wrapped in \<open>try { ... } catch (err) { throw err; }\<close>,
  which rethrows unchanged and is therefore the identity on this type.
\<close>

definition await :: "'a io \<Rightarrow> ('a \<Rightarrow> 'b io) \<Rightarrow> 'b io" where
  "await m f = (\<lambda>tr. case m tr of (Inl e, tr') \<Rightarrow> (Inl e, tr') | (Inr v, tr') \<Rightarrow> f v tr')"

definition sleep :: "nat \<Rightarrow> unit io" where
  "sleep duration = (\<lambda>tr. (Inr (), tr @ [Sleep duration]))"

definition writeI2cBlock :: "bus \<Rightarrow> nat \<Rightarrow> nat \<Rightarrow> nat \<Rightarrow> byte list \<Rightarrow> unit io" where
  "writeI2cBlock b addr cmd len buf =
     (\<lambda>tr. case b tr (WriteBlock addr cmd len buf) of
              None \<Rightarrow> (Inl BusError, tr @ [WriteBlock addr cmd len buf])
            | Some _ \<Rightarrow> (Inr (), tr @ [WriteBlock addr cmd len buf]))"

text \<open>
  A block read fills the caller's zeroed buffer of \<open>len\<close> bytes (\<open>Buffer.alloc(len)\<close>) with
  the bytes delivered and reports how many were read.
\<close>

record read_result =
  bytesRead :: nat
  buffer :: "byte list"

definition readI2cBlock :: "bus \<Rightarrow> nat \<Rightarrow> nat \<Rightarrow> nat \<Rightarrow> read_result io" where
  "readI2cBlock b addr cmd len =
     (\<lambda>tr. case b tr (ReadBlock addr cmd len) of
              None \<Rightarrow> (Inl BusError, tr @ [ReadBlock addr cmd len])
            | Some bs \<Rightarrow>
                (Inr \<lparr>bytesRead = min len (length bs),
                      buffer = take len (bs @ replicate len 0)\<rparr>,
                 tr @ [ReadBlock addr cmd len]))"

section \<open>Numbers of the runtime\<close>

text \<open>
  JavaScript numbers are IEEE 754 double-precision values. A finite value is modelled by
  the rational number it denotes; the infinities and NaN are separate values. The sign of
  zero is not represented: no operation the driver performs observes it. An argument
  \<open>Num x\<close> of the driver stands for a call with the double \<open>x\<close>.
\<close>

datatype number = Num rat | PosInfinity | NegInfinity | NaN

text \<open>The number of binary digits of a natural number.\<close>

fun bit_length :: "nat \<Rightarrow> nat" where
  "bit_length n = (if n = 0 then 0 else Suc (bit_length (n div 2)))"

declare bit_length.simps [simp del]

text \<open>For positive \<open>x\<close>, the exponent \<open>e\<close> with \<open>2 ^ e \<le> x < 2 ^ (e + 1)\<close>.\<close>

definition ilog2 :: "rat \<Rightarrow> int" where
  "ilog2 x =
     (if 1 \<le> x then int (bit_length (nat \<lfloor>x\<rfloor>)) - 1
      else - int (bit_length (nat \<lceil>1 / x\<rceil> - 1)))"

text \<open>The power of two with an integer exponent.\<close>

definition pow2 :: "int \<Rightarrow> rat" where
  "pow2 e = (if 0 \<le> e then 2 ^ nat e else 1 / 2 ^ nat (- e))"

text \<open>The nearest integer, a tie going to the even neighbour.\<close>

definition round_half_even :: "rat \<Rightarrow> int" where
  "round_half_even m =
     (let f = \<lfloor>m\<rfloor>; d = m - of_int f in
      if d < 1 / 2 then f else if 1 / 2 < d then f + 1 else if even f then f else f + 1)"

text \<open>
  The double nearest to a rational, ties to even: the value is rounded to a multiple of
  \<open>2 ^ q\<close>, where \<open>q\<close> is the exponent of the value (at least -1022, the subnormal
  range) minus the 52 fraction bits; a result of magnitude \<open>2 ^ 1024\<close> or more
  overflows to an infinity. A decimal literal of the source denotes the rounding of its
  value, and each arithmetic operation returns the rounding of its exact result.
\<close>

definition round_double :: "rat \<Rightarrow> number" where
  "round_double x =
     (if x = 0 then Num 0
      else
        (let a = \<bar>x\<bar>;
             q = max (ilog2 a) (- 1022) - 52;
             y = of_int (round_half_even (a / pow2 q)) * pow2 q in
         if pow2 1024 \<le> y then (if 0 < x then PosInfinity else NegInfinity)
         else Num (if 0 < x then y else - y)))"

text \<open>Addition and multiplication of numbers, and \<open>Math.ceil\<close>.\<close>

fun fadd :: "number \<Rightarrow> number \<Rightarrow> number" where
  "fadd (Num x) (Num y) = round_double (x + y)"
| "fadd NaN b = NaN"
| "fadd a NaN = NaN"
| "fadd PosInfinity NegInfinity = NaN"
| "fadd NegInfinity PosInfinity = NaN"
| "fadd PosInfinity b = PosInfinity"
| "fadd a PosInfinity = PosInfinity"
| "fadd NegInfinity b = NegInfinity"
| "fadd a NegInfinity = NegInfinity"

fun is_negative :: "number \<Rightarrow> bool" where
  "is_negative (Num x) = (x < 0)"
| "is_negative NegInfinity = True"
| "is_negative a = False"

fun fmul :: "number \<Rightarrow> number \<Rightarrow> number" where
  "fmul (Num x) (Num y) = round_double (x * y)"
| "fmul a b =
     (if a = NaN \<or> b = NaN \<or> a = Num 0 \<or> b = Num 0 then NaN
      else if is_negative a = is_negative b then PosInfinity else NegInfinity)"

fun Math_ceil :: "number \<Rightarrow> number" where
  "Math_ceil (Num x) = Num (of_int \<lceil>x\<rceil>)"
| "Math_ceil a = a"

section \<open>Buffer and string primitives of the runtime used by the driver\<close>

text \<open>The character of a digit value below 36.\<close>

definition digit_char :: "nat \<Rightarrow> char" where
  "digit_char d = ''0123456789abcdefghijklmnopqrstuvwxyz'' ! d"

text \<open>
  \<open>n.toString(radix)\<close> for a non-negative integer: the digits of \<open>n\<close> in the radix, most
  significant first, without leading zeros. The driver passes the radices 2, 10 and 16;
  for a radix outside 2..36, where the runtime throws, the model gives the empty string.
\<close>

function toString_nat :: "nat \<Rightarrow> nat \<Rightarrow> string" where
  "toString_nat radix n =
     (if radix < 2 \<or> 36 < radix then []
      else if n < radix then [digit_char n]
      else toString_nat radix (n div radix) @ [digit_char (n mod radix)])"
  by pat_completeness auto
termination
  by (relation "measure snd") (auto simp: not_less intro!: div_less_dividend)

declare toString_nat.simps [simp del]

text \<open>
  \<open>k.toString(radix)\<close> for an integer value: a minus sign, then the magnitude; for a
  non-finite value, its name. The driver applies it to results of \<open>Math.ceil\<close> only:
  the digits after the point of a non-integer are not modelled (the model gives those of
  the value rounded down), nor is the digit generation of the runtime for magnitudes of
  \<open>2 ^ 53\<close> and more.
\<close>

definition Number_toString :: "nat \<Rightarrow> number \<Rightarrow> string" where
  "Number_toString radix v =
     (case v of
        Num x \<Rightarrow>
          (if \<lfloor>x\<rfloor> < 0 then CHR ''-'' # toString_nat radix (nat (- \<lfloor>x\<rfloor>))
           else toString_nat radix (nat \<lfloor>x\<rfloor>))
      | PosInfinity \<Rightarrow> ''Infinity''
      | NegInfinity \<Rightarrow> ''-Infinity''
      | NaN \<Rightarrow> ''NaN'')"

definition hex_val :: "char \<Rightarrow> nat option" where
  "hex_val c =
     (let n = (of_char c :: nat) in
      if 48 \<le> n \<and> n \<le> 57 then Some (n - 48)
      else if 97 \<le> n \<and> n \<le> 102 then Some (n - 87)
      else if 65 \<le> n \<and> n \<le> 70 then Some (n - 55)
      else None)"

text \<open>
  \<open>Buffer.from(s, "hex")\<close>: two hex digits per byte, high nibble first; decoding stops
  at the first pair that is not two hex digits, and a trailing single digit is dropped.
\<close>

fun Buffer_from_hex :: "string \<Rightarrow> byte list" where
  "Buffer_from_hex (c1 # c2 # cs) =
     (case hex_val c1 of
        None \<Rightarrow> []
      | Some h \<Rightarrow>
          (case hex_val c2 of
             None \<Rightarrow> []
           | Some l \<Rightarrow> word_of_nat (16 * h + l) # Buffer_from_hex cs))"
| "Buffer_from_hex cs = []"

text \<open>\<open>Buffer.from([v])\<close>: each array entry is stored modulo 256.\<close>

definition Buffer_from_array :: "int list \<Rightarrow> byte list" where
  "Buffer_from_array vs = map word_of_int vs"

text \<open>
  \<open>buf.readInt8()\<close>: the byte at offset 0 as a signed 8-bit value; a RangeError on an
  empty buffer.
\<close>

definition readInt8 :: "byte list \<Rightarrow> error + int" where
  "readInt8 buf = (case buf of [] \<Rightarrow> Inl RangeError | x # _ \<Rightarrow> Inr (sint x))"

fun le_value :: "byte list \<Rightarrow> int" where
  "le_value [] = 0"
| "le_value (x # xs) = uint x + 256 * le_value xs"

text \<open>
  \<open>buf.readIntLE(offset, byteLength)\<close>: \<open>byteLength\<close> bytes from \<open>offset\<close>, least
  significant first, read as a two's-complement signed value; a byteLength outside 1..6
  or a read past the end throws a RangeError.
\<close>

definition readIntLE :: "byte list \<Rightarrow> nat \<Rightarrow> nat \<Rightarrow> error + int" where
  "readIntLE buf offset byteLength =
     (if byteLength < 1 \<or> 6 < byteLength \<or> length buf < offset + byteLength then Inl RangeError
      else
        (let u = le_value (take byteLength (drop offset buf)) in
         Inr (if 2 ^ (8 * byteLength - 1) \<le> u then u - 2 ^ (8 * byteLength) else u)))"

definition padStart :: "nat \<Rightarrow> char \<Rightarrow> string \<Rightarrow> string" where
  "padStart n c s = replicate (n - length s) c @ s"

definition substring :: "string \<Rightarrow> nat \<Rightarrow> nat \<Rightarrow> string" where
  "substring s i j = take (max i j - min i j) (drop (min i j) s)"

definition is_digit :: "char \<Rightarrow> bool" where
  "is_digit c = (48 \<le> (of_char c :: nat) \<and> (of_char c :: nat) \<le> 57)"

text \<open>
  \<open>parseInt(s)\<close> on the strings the driver passes (digits only, no sign, blank or
  \<open>0x\<close> prefix): the decimal value of the leading digits, NaN (\<open>None\<close>) without any.
\<close>

definition parseInt :: "string \<Rightarrow> nat option" where
  "parseInt s =
     (let ds = takeWhile is_digit s in
      if ds = [] then None
      else Some (foldl (\<lambda>acc c. 10 * acc + ((of_char c :: nat) - 48)) 0 ds))"

text \<open>A number interpolated into a template string.\<close>

definition template_number :: "nat option \<Rightarrow> string" where
  "template_number v = (case v of None \<Rightarrow> ''NaN'' | Some n \<Rightarrow> toString_nat 10 n)"

section \<open>The driver (class ENS160, ENS160.ts)\<close>

text \<open>
  \<open>setMode\<close>, lines 123-141. The argument is a JavaScript number; the model takes an
  integer.
\<close>

definition setMode :: "bus \<Rightarrow> int \<Rightarrow> bool io" where
  "setMode b mode =
     (if mode \<notin> set VALID_MODES then throw (InvalidMode mode)
      else
        (let buf = Buffer_from_array [mode] in
         await (writeI2cBlock b ENS160_I2CADDR ENS160_CMD_OPMODE (length buf) buf) (\<lambda>_.
         await (sleep 10) (\<lambda>_.
         return True))))"

text \<open>\<open>reset\<close>, lines 108-115.\<close>

definition reset :: "bus \<Rightarrow> bool io" where
  "reset b = await (setMode b MODE_RESET) (\<lambda>_. return True)"

text \<open>\<open>getMode\<close>, lines 148-161.\<close>

definition getMode :: "bus \<Rightarrow> int io" where
  "getMode b =
     await (readI2cBlock b ENS160_I2CADDR ENS160_CMD_OPMODE 1) (\<lambda>curr.
     (case readInt8 (buffer curr) of Inl e \<Rightarrow> throw e | Inr v \<Rightarrow> return v))"

text \<open>\<open>check\<close>, lines 168-184.\<close>

definition check :: "bus \<Rightarrow> bool io" where
  "check b =
     await (readI2cBlock b ENS160_I2CADDR ENS160_CMD_PARTID 2) (\<lambda>bug.
     (case readIntLE (buffer bug) 0 2 of
        Inl e \<Rightarrow> throw e
      | Inr v \<Rightarrow> if v \<noteq> ENS160_PARTID then throw IdentityMismatch else return True))"

text \<open>\<open>clear_command\<close>, lines 191-210.\<close>

definition clear_command :: "bus \<Rightarrow> bool io" where
  "clear_command b =
     await (writeI2cBlock b ENS160_I2CADDR ENS160_CMD_COMMAND 1
              (Buffer_from_array [COMMAND_NOP])) (\<lambda>_.
     await (writeI2cBlock b ENS160_I2CADDR ENS160_CMD_COMMAND 1
              (Buffer_from_array [COMMAND_CLRGPR])) (\<lambda>_.
     await (sleep 10) (\<lambda>_.
     return True)))"

text \<open>\<open>read_gpr\<close>, lines 217-229.\<close>

definition read_gpr :: "bus \<Rightarrow> byte list io" where
  "read_gpr b =
     await (readI2cBlock b ENS160_I2CADDR ENS160_CMD_READGPR 8) (\<lambda>data.
     return (buffer data))"

text \<open>
  \<open>firmware_version\<close>, lines 236-262. \<open>ret\<close> is the 8-byte buffer of \<open>read_gpr\<close>, so the
  offsets 4, 5 and 6 are within it.
\<close>

definition version_string :: "byte list \<Rightarrow> string" where
  "version_string ret =
     template_number (parseInt (toString_nat 10 (unat (ret ! 4)))) @ ''.'' @
     template_number (parseInt (toString_nat 10 (unat (ret ! 5)))) @ ''.'' @
     template_number (parseInt (toString_nat 10 (unat (ret ! 6))))"

definition firmware_version :: "bus \<Rightarrow> string io" where
  "firmware_version b =
     await (getMode b) (\<lambda>curr.
     await (setMode b MODE_IDLE) (\<lambda>_.
     await (clear_command b) (\<lambda>_.
     await (sleep 10) (\<lambda>_.
     await (writeI2cBlock b ENS160_I2CADDR ENS160_CMD_COMMAND 1
              (Buffer_from_array [COMMAND_GETAPPVER])) (\<lambda>_.
     await (read_gpr b) (\<lambda>ret.
     await (setMode b curr) (\<lambda>_.
     return (version_string ret))))))))"

text \<open>
  \<open>temperature_compensation\<close>, lines 270-286, and \<open>humidity_compensation\<close>, lines
  316-332. The addition and the multiplication are those of doubles; \<open>273.15\<close> is the
  double nearest to that decimal.
\<close>

definition temperature_compensation :: "bus \<Rightarrow> number \<Rightarrow> bool io" where
  "temperature_compensation b temp_c =
     (let k64 = Math_ceil (fmul (fadd temp_c (round_double (27315 / 100))) (Num 64));
          buf = Buffer_from_hex (Number_toString 16 k64) in
      await (writeI2cBlock b ENS160_I2CADDR ENS160_CMD_TEMPIN (length buf) buf) (\<lambda>_.
      return True))"

definition humidity_compensation :: "bus \<Rightarrow> number \<Rightarrow> bool io" where
  "humidity_compensation b humidity =
     (let k64 = Math_ceil (fmul humidity (Num 512));
          buf = Buffer_from_hex (Number_toString 16 k64) in
      await (writeI2cBlock b ENS160_I2CADDR ENS160_CMD_RHIN (length buf) buf) (\<lambda>_.
      return True))"

text \<open>
  \<open>init\<close>, lines 79-101 of ENS160.ts. The guard on the value of \<open>check\<close> and its
  \<open>throw "Could not detect!"\<close> are kept as written.
\<close>

definition init :: "bus \<Rightarrow> bool io" where
  "init b =
     await (sleep 20) (\<lambda>_.
     await (reset b) (\<lambda>_.
     await (check b) (\<lambda>ok.
     if \<not> ok then throw DeviceNotDetected
     else
       await (setMode b MODE_IDLE) (\<lambda>_.
       await (clear_command b) (\<lambda>_.
       await (setMode b MODE_STANDARD) (\<lambda>_.
       await (temperature_compensation b (Num 25)) (\<lambda>_.
       await (humidity_compensation b (Num 50)) (\<lambda>_.
       return True))))))))"

text \<open>
  The compiled distribution file (the JavaScript \<open>init\<close>, lines 82-101) is the same
  sequence with the defaults 25.5 and 51.
\<close>

definition init_js :: "bus \<Rightarrow> bool io" where
  "init_js b =
     await (sleep 20) (\<lambda>_.
     await (reset b) (\<lambda>_.
     await (check b) (\<lambda>ok.
     if \<not> ok then throw DeviceNotDetected
     else
       await (setMode b MODE_IDLE) (\<lambda>_.
       await (clear_command b) (\<lambda>_.
       await (setMode b MODE_STANDARD) (\<lambda>_.
       await (temperature_compensation b (Num (51 / 2))) (\<lambda>_.
       await (humidity_compensation b (Num 51)) (\<lambda>_.
       return True))))))))"

text \<open>\<open>AQI\<close>, \<open>ECO2\<close> and \<open>TVOC\<close>, lines 361-414.\<close>

definition AQI :: "bus \<Rightarrow> int io" where
  "AQI b =
     await (readI2cBlock b ENS160_I2CADDR ENS160_CMD_AQI 1) (\<lambda>measurement.
     (case readIntLE (buffer measurement) 0 (bytesRead measurement) of
        Inl e \<Rightarrow> throw e | Inr v \<Rightarrow> return v))"

definition ECO2 :: "bus \<Rightarrow> int io" where
  "ECO2 b =
     await (readI2cBlock b ENS160_I2CADDR ENS160_CMD_ECO2 2) (\<lambda>measurement.
     (case readIntLE (buffer measurement) 0 (bytesRead measurement) of
        Inl e \<Rightarrow> throw e | Inr v \<Rightarrow> return v))"

definition TVOC :: "bus \<Rightarrow> int io" where
  "TVOC b =
     await (readI2cBlock b ENS160_I2CADDR ENS160_CMD_TVOC 2) (\<lambda>measurement.
     (case readIntLE (buffer measurement) 0 (bytesRead measurement) of
        Inl e \<Rightarrow> throw e | Inr v \<Rightarrow> return v))"

text \<open>
  \<open>status\<close>, lines 421-462; \<open>status_decode\<close> is the part after the read. The field
  \<open>status\<close> of the returned object is \<open>status_type\<close> here, \<open>status\<close> being the method.
  The buffer of the 1-byte read always holds one byte, so the empty case of \<open>status\<close>
  is never taken.
\<close>

datatype StatusType = normal | warmup | startup | invalid

record status_snapshot =
  opmode :: bool
  error :: bool
  status_type :: StatusType

definition status_decode :: "byte \<Rightarrow> status_snapshot" where
  "status_decode x =
     (let bin = padStart 8 (CHR ''0'') (toString_nat 2 (unat x));
          opmode = (substring bin 0 1 = ''1'');
          error = (substring bin 1 2 = ''1'');
          sel = parseInt (substring bin 4 5);
          status =
            (if sel = Some 0 then normal
             else if sel = Some 1 then warmup
             else if sel = Some 2 then startup
             else if sel = Some 3 then invalid
             else invalid)
      in \<lparr>opmode = opmode, error = error, status_type = status\<rparr>)"

definition status :: "bus \<Rightarrow> status_snapshot io" where
  "status b =
     await (readI2cBlock b ENS160_I2CADDR ENS160_CMD_STATUS 1) (\<lambda>measurement.
     (case buffer measurement of
        [] \<Rightarrow> throw RangeError
      | x # _ \<Rightarrow> return (status_decode x)))"

section \<open>A simulated device for concrete runs\<close>

text \<open>
  \<open>replay rs\<close> answers the n-th bus transfer of a run with the n-th entry of \<open>rs\<close>
  (\<open>None\<close> rejects it) and rejects every transfer after the last entry.
\<close>

fun is_transfer :: "event \<Rightarrow> bool" where
  "is_transfer (Sleep d) = False"
| "is_transfer (WriteBlock a c n buf) = True"
| "is_transfer (ReadBlock a c n) = True"

definition replay :: "byte list option list \<Rightarrow> bus" where
  "replay rs tr ev =
     (let n = length (filter is_transfer tr) in if n < length rs then rs ! n else None)"

section \<open>Properties stated over traces\<close>

text \<open>
  The effects of a complete initialization, in order: the startup wait, setMode(Reset)
  with its settle wait, the identity read of check, setMode(Idle), the two writes and the
  wait of the clear-command protocol, setMode(Standard), and the two compensation writes
  with payloads \<open>t\<close> and \<open>h\<close>.
\<close>

definition init_steps :: "byte list \<Rightarrow> byte list \<Rightarrow> event list" where
  "init_steps t h =
     [Sleep 20,
      WriteBlock ENS160_I2CADDR ENS160_CMD_OPMODE 1 [0xF0], Sleep 10,
      ReadBlock ENS160_I2CADDR ENS160_CMD_PARTID 2,
      WriteBlock ENS160_I2CADDR ENS160_CMD_OPMODE 1 [0x01], Sleep 10,
      WriteBlock ENS160_I2CADDR ENS160_CMD_COMMAND 1 [0x00],
      WriteBlock ENS160_I2CADDR ENS160_CMD_COMMAND 1 [0xCC], Sleep 10,
      WriteBlock ENS160_I2CADDR ENS160_CMD_OPMODE 1 [0x02], Sleep 10,
      WriteBlock ENS160_I2CADDR ENS160_CMD_TEMPIN 2 t,
      WriteBlock ENS160_I2CADDR ENS160_CMD_RHIN 2 h]"

text \<open>
  A run that did not succeed ends at the step that failed: its last effect is the transfer
  the bus rejected, or the identity read whose bytes did not match.
\<close>

definition stops_at_failure :: "bus \<Rightarrow> (error + bool) \<times> event list \<Rightarrow> bool" where
  "stops_at_failure b r =
     (snd r \<noteq> [] \<and>
      (b (butlast (snd r)) (last (snd r)) = None \<and> fst r = Inl BusError \<or>
       last (snd r) = ReadBlock ENS160_I2CADDR ENS160_CMD_PARTID 2 \<and> fst r = Inl IdentityMismatch))"

text \<open>
  The run of a list of initialization steps as the claim describes it: the steps are
  issued in order; a wait always succeeds; a transfer that the bus rejects ends the run
  with the bus error, after that transfer and before any later step; the identity read
  ends the run with IdentityMismatch unless it delivers \<open>0x60, 0x01\<close>; when no step is
  left the result is true.
\<close>

fun run_init_steps :: "bus \<Rightarrow> event list \<Rightarrow> event list \<Rightarrow> (error + bool) \<times> event list" where
  "run_init_steps b [] tr = (Inr True, tr)"
| "run_init_steps b (Sleep d # es) tr = run_init_steps b es (tr @ [Sleep d])"
| "run_init_steps b (WriteBlock a c n buf # es) tr =
     (if b tr (WriteBlock a c n buf) = None then (Inl BusError, tr @ [WriteBlock a c n buf])
      else run_init_steps b es (tr @ [WriteBlock a c n buf]))"
| "run_init_steps b (ReadBlock a c n # es) tr =
     (if b tr (ReadBlock a c n) = None then (Inl BusError, tr @ [ReadBlock a c n])
      else if take 2 (the (b tr (ReadBlock a c n)) @ [0, 0]) = [0x60, 0x01]
      then run_init_steps b es (tr @ [ReadBlock a c n])
      else (Inl IdentityMismatch, tr @ [ReadBlock a c n]))"

text \<open>
  The run of a list of steps with no check on what is read: the steps are issued in
  order, and a transfer that the bus rejects ends the run with the bus error, after that
  transfer and before any later step.
\<close>

fun run_steps :: "bus \<Rightarrow> event list \<Rightarrow> event list \<Rightarrow> error option \<times> event list" where
  "run_steps b [] tr = (None, tr)"
| "run_steps b (e # es) tr =
     (if is_transfer e \<and> b tr e = None then (Some BusError, tr @ [e])
      else run_steps b es (tr @ [e]))"

text \<open>
  The effects of a complete \<open>firmware_version\<close> when the mode byte read at its start is
  \<open>m\<close>: the mode read, setMode(Idle), the clear-command protocol, the extra wait, the
  GetAppVersion command, the read of the general-purpose registers, and the write that
  restores \<open>m\<close> with its settle wait.
\<close>

definition firmware_steps :: "byte \<Rightarrow> event list" where
  "firmware_steps m =
     [ReadBlock ENS160_I2CADDR ENS160_CMD_OPMODE 1,
      WriteBlock ENS160_I2CADDR ENS160_CMD_OPMODE 1 [0x01], Sleep 10,
      WriteBlock ENS160_I2CADDR ENS160_CMD_COMMAND 1 [0x00],
      WriteBlock ENS160_I2CADDR ENS160_CMD_COMMAND 1 [0xCC], Sleep 10,
      Sleep 10,
      WriteBlock ENS160_I2CADDR ENS160_CMD_COMMAND 1 [0x0E],
      ReadBlock ENS160_I2CADDR ENS160_CMD_READGPR 8,
      WriteBlock ENS160_I2CADDR ENS160_CMD_OPMODE 1 [m], Sleep 10]"

text \<open>
  The encoding the specification gives for the compensation inputs: the value rounded to
  the nearest integer, as an unsigned 16-bit number, low byte first.
\<close>

definition le16 :: "int \<Rightarrow> byte list" where
  "le16 v = [word_of_int (v mod 256), word_of_int (v div 256 mod 256)]"

definition spec_temperature_bytes :: "rat \<Rightarrow> byte list" where
  "spec_temperature_bytes t = le16 (round ((t + 27315 / 100) * 64))"

definition spec_humidity_bytes :: "rat \<Rightarrow> byte list" where
  "spec_humidity_bytes h = le16 (round (h * 512))"

text \<open>
  The \<open>k\<close> low binary digits of \<open>n\<close>, most significant first; used to describe the string
  that \<open>status\<close> builds.
\<close>

fun bin_digits :: "nat \<Rightarrow> nat \<Rightarrow> string" where
  "bin_digits 0 n = []"
| "bin_digits (Suc k) n = bin_digits k (n div 2) @ [digit_char (n mod 2)]"

section \<open>Unfolding rules\<close>

lemmas register_defs =
  ENS160_I2CADDR_def ENS160_PARTID_def ENS160_CMD_PARTID_def ENS160_CMD_OPMODE_def
  ENS160_CMD_COMMAND_def ENS160_CMD_TEMPIN_def ENS160_CMD_RHIN_def ENS160_CMD_STATUS_def
  ENS160_CMD_AQI_def ENS160_CMD_TVOC_def ENS160_CMD_ECO2_def ENS160_CMD_READGPR_def
  MODE_SLEEP_def MODE_IDLE_def MODE_STANDARD_def MODE_RESET_def VALID_MODES_def
  COMMAND_NOP_def COMMAND_CLRGPR_def COMMAND_GETAPPVER_def

lemmas io_defs = return_def throw_def await_def sleep_def writeI2cBlock_def readI2cBlock_def

section \<open>The steps of the driver, one by one\<close>

lemma writeI2cBlock_run:
  "writeI2cBlock b addr cmd len buf tr =
     (if b tr (WriteBlock addr cmd len buf) = None
      then (Inl BusError, tr @ [WriteBlock addr cmd len buf])
      else (Inr (), tr @ [WriteBlock addr cmd len buf]))"
  by (simp add: writeI2cBlock_def split: option.splits)

lemma setMode_run:
  "setMode b mode tr =
     (if mode \<notin> {0x00, 0x01, 0x02, 0xF0} then (Inl (InvalidMode mode), tr)
      else if b tr (WriteBlock 0x53 0x10 1 [word_of_int mode]) = None
      then (Inl BusError, tr @ [WriteBlock 0x53 0x10 1 [word_of_int mode]])
      else (Inr True, tr @ [WriteBlock 0x53 0x10 1 [word_of_int mode], Sleep 10]))"
  by (simp add: setMode_def io_defs register_defs Buffer_from_array_def Let_def split: option.splits)

lemma setMode_idle:
  "setMode b 1 tr =
     (if b tr (WriteBlock 0x53 0x10 1 [0x01]) = None
      then (Inl BusError, tr @ [WriteBlock 0x53 0x10 1 [0x01]])
      else (Inr True, tr @ [WriteBlock 0x53 0x10 1 [0x01], Sleep 10]))"
  by (simp add: setMode_run)

lemma setMode_saved:
  fixes m :: byte
  shows "setMode b (sint m) tr =
     (if sint m \<notin> {0x00, 0x01, 0x02, 0xF0} then (Inl (InvalidMode (sint m)), tr)
      else if b tr (WriteBlock 0x53 0x10 1 [m]) = None
      then (Inl BusError, tr @ [WriteBlock 0x53 0x10 1 [m]])
      else (Inr True, tr @ [WriteBlock 0x53 0x10 1 [m], Sleep 10]))"
proof -
  have same: "(word_of_int (sint m) :: byte) = m" by simp
  show ?thesis unfolding setMode_run [of b "sint m" tr] same by (rule refl)
qed

lemma reset_run:
  "reset b tr =
     (if b tr (WriteBlock 0x53 0x10 1 [0xF0]) = None
      then (Inl BusError, tr @ [WriteBlock 0x53 0x10 1 [0xF0]])
      else (Inr True, tr @ [WriteBlock 0x53 0x10 1 [0xF0], Sleep 10]))"
  by (simp add: reset_def setMode_run MODE_RESET_def return_def await_def)

lemma clear_command_run:
  "clear_command b tr =
     (if b tr (WriteBlock 0x53 0x12 1 [0x00]) = None
      then (Inl BusError, tr @ [WriteBlock 0x53 0x12 1 [0x00]])
      else if b (tr @ [WriteBlock 0x53 0x12 1 [0x00]]) (WriteBlock 0x53 0x12 1 [0xCC]) = None
      then (Inl BusError, tr @ [WriteBlock 0x53 0x12 1 [0x00], WriteBlock 0x53 0x12 1 [0xCC]])
      else (Inr True, tr @ [WriteBlock 0x53 0x12 1 [0x00], WriteBlock 0x53 0x12 1 [0xCC], Sleep 10]))"
  by (simp add: clear_command_def io_defs register_defs Buffer_from_array_def split: option.splits)

lemma buffer_one: "\<exists>x. take (Suc 0) (bs @ [0::byte]) = [x]"
  by (cases bs) auto

lemma buffer_two: "\<exists>x y. take 2 (bs @ [0, 0::byte]) = [x, y]"
proof (cases bs)
  case Nil then show ?thesis by simp
next
  case (Cons a as) then show ?thesis by (cases as) (auto simp: numeral_2_eq_2)
qed

lemma part_id_bytes:
  fixes x y :: byte
  shows "(uint x + 256 * uint y = 0x0160) = (x = 0x60 \<and> y = 0x01)"
proof
  assume h: "uint x + 256 * uint y = 0x0160"
  have bx: "0 \<le> uint x" "uint x < 256" using uint_lt2p [of x] by simp_all
  have by': "0 \<le> uint y" "uint y < 256" using uint_lt2p [of y] by simp_all
  from h bx by' have "uint x = 96 \<and> uint y = 1" by arith
  then have "uint x = uint (0x60 :: byte)" "uint y = uint (0x01 :: byte)" by simp_all
  then show "x = 0x60 \<and> y = 0x01" by (simp only: word_uint_eq_iff)
next
  assume "x = 0x60 \<and> y = 0x01" then show "uint x + 256 * uint y = 0x0160" by simp
qed

lemma readIntLE_pair:
  fixes x y :: byte
  shows "readIntLE [x, y] 0 2 =
     Inr (if 32768 \<le> uint x + 256 * uint y then uint x + 256 * uint y - 65536
          else uint x + 256 * uint y)"
  by (simp add: readIntLE_def Let_def)

lemma check_pair:
  fixes x y :: byte
  shows "(case readIntLE [x, y] 0 2 of
        Inl e \<Rightarrow> throw e
      | Inr v \<Rightarrow> if v \<noteq> ENS160_PARTID then throw IdentityMismatch else return True) tr
      = (if x = 0x60 \<and> y = 0x01 then Inr True else Inl IdentityMismatch, tr)"
proof -
  have bx: "0 \<le> uint x" "uint x < 256" using uint_lt2p [of x] by simp_all
  have by': "0 \<le> uint y" "uint y < 256" using uint_lt2p [of y] by simp_all
  have "(uint x + 256 * uint y = 0x0160) = (x = 0x60 \<and> y = 0x01)" by (rule part_id_bytes)
  then show ?thesis using bx by'
    by (simp add: readIntLE_pair ENS160_PARTID_def throw_def return_def)
qed

lemma check_run:
  "check b tr =
     (case b tr (ReadBlock 0x53 0x00 2) of
        None \<Rightarrow> (Inl BusError, tr @ [ReadBlock 0x53 0x00 2])
      | Some bs \<Rightarrow>
          (if take 2 (bs @ [0, 0]) = [0x60, 0x01] then Inr True else Inl IdentityMismatch,
           tr @ [ReadBlock 0x53 0x00 2]))"
proof (cases "b tr (ReadBlock 0x53 0x00 2)")
  case None
  then show ?thesis
    by (simp add: check_def io_defs register_defs)
next
  case (Some bs)
  obtain x y where xy: "take 2 (bs @ [0, 0]) = [x, y]"
    using buffer_two by blast
  have "check b tr =
      (case readIntLE (take 2 (bs @ [0, 0])) 0 2 of
        Inl e \<Rightarrow> throw e
      | Inr v \<Rightarrow> if v \<noteq> ENS160_PARTID then throw IdentityMismatch else return True)
      (tr @ [ReadBlock 0x53 0x00 2])"
    using Some by (simp add: check_def await_def readI2cBlock_def ENS160_I2CADDR_def ENS160_CMD_PARTID_def numeral_2_eq_2)
  also have "\<dots> = (if x = 0x60 \<and> y = 0x01 then Inr True else Inl IdentityMismatch,
      tr @ [ReadBlock 0x53 0x00 2])"
    unfolding xy by (rule check_pair)
  finally show ?thesis using Some xy by simp
qed

lemma check_run_if:
  "check b tr =
     (if b tr (ReadBlock 0x53 0x00 2) = None then (Inl BusError, tr @ [ReadBlock 0x53 0x00 2])
      else if take 2 (the (b tr (ReadBlock 0x53 0x00 2)) @ [0, 0]) = [0x60, 0x01]
      then (Inr True, tr @ [ReadBlock 0x53 0x00 2])
      else (Inl IdentityMismatch, tr @ [ReadBlock 0x53 0x00 2]))"
  by (cases "b tr (ReadBlock 0x53 0x00 2)") (simp_all add: check_run)

lemma getMode_run:
  "getMode b tr =
     (case b tr (ReadBlock 0x53 0x10 1) of
        None \<Rightarrow> (Inl BusError, tr @ [ReadBlock 0x53 0x10 1])
      | Some bs \<Rightarrow> (Inr (sint (hd (bs @ [0]))), tr @ [ReadBlock 0x53 0x10 1]))"
proof (cases "b tr (ReadBlock 0x53 0x10 1)")
  case None
  then show ?thesis by (simp add: getMode_def io_defs register_defs)
next
  case (Some bs)
  then show ?thesis
    by (cases bs) (simp_all add: getMode_def io_defs register_defs readInt8_def)
qed

lemma getMode_single:
  "b tr (ReadBlock 0x53 0x10 1) = Some [m] \<Longrightarrow>
     getMode b tr = (Inr (sint m), tr @ [ReadBlock 0x53 0x10 1])"
  by (simp add: getMode_run)

lemma read_gpr_run:
  "read_gpr b tr =
     (if b tr (ReadBlock 0x53 0x48 8) = None then (Inl BusError, tr @ [ReadBlock 0x53 0x48 8])
      else (Inr (take 8 (the (b tr (ReadBlock 0x53 0x48 8)) @ replicate 8 0)),
            tr @ [ReadBlock 0x53 0x48 8]))"
  by (cases "b tr (ReadBlock 0x53 0x48 8)") (simp_all add: read_gpr_def io_defs register_defs)

subsection \<open>Hexadecimal encoding of the compensation values\<close>

lemma hex_val_digit: "d < 16 \<Longrightarrow> hex_val (digit_char d) = Some d"
proof -
  assume "d < 16"
  then have "d = 0 \<or> d = 1 \<or> d = 2 \<or> d = 3 \<or> d = 4 \<or> d = 5 \<or> d = 6 \<or> d = 7 \<or> d = 8 \<or> d = 9
      \<or> d = 10 \<or> d = 11 \<or> d = 12 \<or> d = 13 \<or> d = 14 \<or> d = 15"
    by arith
  then show ?thesis
    by (elim disjE) (simp_all add: digit_char_def hex_val_def)
qed

lemma toString_hex4:
  assumes "4096 \<le> n" "n < 65536"
  shows "toString_nat 16 n =
     [digit_char (n div 4096), digit_char (n div 256 mod 16),
      digit_char (n div 16 mod 16), digit_char (n mod 16)]"
proof -
  have a: "\<not> n < 16" "\<not> n div 16 < 16" "\<not> n div 16 div 16 < 16" "n div 16 div 16 div 16 < 16"
    using assms by simp_all
  have b: "n div 16 div 16 div 16 = n div 4096" "n div 16 div 16 mod 16 = n div 256 mod 16"
    by (simp_all add: div_mult2_eq [symmetric])
  have "toString_nat 16 n = toString_nat 16 (n div 16) @ [digit_char (n mod 16)]"
    using a(1) by (subst toString_nat.simps) simp
  also have "toString_nat 16 (n div 16) =
      toString_nat 16 (n div 16 div 16) @ [digit_char (n div 16 mod 16)]"
    using a(2) by (subst toString_nat.simps) simp
  also have "toString_nat 16 (n div 16 div 16) =
      toString_nat 16 (n div 16 div 16 div 16) @ [digit_char (n div 16 div 16 mod 16)]"
    using a(3) by (subst toString_nat.simps) simp
  also have "toString_nat 16 (n div 16 div 16 div 16) = [digit_char (n div 16 div 16 div 16)]"
    using a(4) by (subst toString_nat.simps) simp
  finally show ?thesis by (simp add: b)
qed

lemma Buffer_from_hex4:
  assumes "4096 \<le> k" "k < 65536"
  shows "Buffer_from_hex (Number_toString 16 (Num (of_int k))) =
     [word_of_int (k div 256), word_of_int (k mod 256)]"
proof -
  define n where "n = nat k"
  have n: "4096 \<le> n" "n < 65536" and k: "k = int n" using assms by (simp_all add: n_def)
  have d: "n div 4096 < 16" "n div 256 mod 16 < 16" "n div 16 mod 16 < 16" "n mod 16 < 16"
    using n by simp_all
  have "n div 4096 = n div 256 div 16" by (simp add: div_mult2_eq [symmetric])
  then have hi: "16 * (n div 4096) + n div 256 mod 16 = n div 256" by simp
  have lo: "16 * (n div 16 mod 16) + n mod 16 = n mod 256"
    using mod_mult2_eq [of n 16 16] by simp
  have "Buffer_from_hex (Number_toString 16 (Num (of_int k))) =
      [word_of_nat (16 * (n div 4096) + n div 256 mod 16),
       word_of_nat (16 * (n div 16 mod 16) + n mod 16)]"
    using n by (simp add: Number_toString_def k toString_hex4 hex_val_digit d)
  also have "\<dots> = [word_of_nat (n div 256), word_of_nat (n mod 256)]"
    by (simp only: hi lo)
  also have "\<dots> = [word_of_int (int (n div 256)), word_of_int (int (n mod 256))]"
    by (simp only: of_int_of_nat_eq)
  also have "\<dots> = [word_of_int (k div 256), word_of_int (k mod 256)]"
    by (simp add: k zdiv_int zmod_int)
  finally show ?thesis .
qed

lemma floor_rat_numeral [simp]:
  "\<lfloor>numeral a / numeral b :: rat\<rfloor> = numeral a div numeral b"
  using floor_divide_of_int_eq [of "numeral a" "numeral b", where ?'a = rat] by simp

lemma ceiling_rat_numeral [simp]:
  "\<lceil>numeral a / numeral b :: rat\<rceil> = - (- numeral a div numeral b)"
  using ceiling_divide_eq_div [of "numeral a" "numeral b", where ?'a = rat] by simp

lemmas eval_double = ilog2_def pow2_def round_half_even_def bit_length.simps Let_def

lemma round_double_pos:
  assumes "0 < x" and "ilog2 x = e" and "max e (- 1022) - 52 = q"
    and "round_half_even (x / pow2 q) = r" and "of_int r * pow2 q = y" and "y < pow2 1024"
  shows "round_double x = Num y"
  using assms by (simp add: round_double_def Let_def)

lemma double_273_15: "round_double (27315 / 100) = Num (2402652809016115 / 8796093022208)"
  by (rule round_double_pos [where e = 8 and q = "- 44" and r = 4805305618032230])
     (simp_all add: eval_double)

lemma sum_25: "round_double (25 + 2402652809016115 / 8796093022208) = Num (2622555134571315 / 8796093022208)"
  by (rule round_double_pos [where e = 8 and q = "- 44" and r = 5245110269142630])
     (simp_all add: eval_double)

lemma product_25: "round_double (2622555134571315 / 8796093022208 * 64) = Num (2622555134571315 / 137438953472)"
  by (rule round_double_pos [where e = 14 and q = "- 38" and r = 5245110269142630])
     (simp_all add: eval_double)

lemma sum_25_5: "round_double (51 / 2 + 2402652809016115 / 8796093022208) = Num (2626953181082419 / 8796093022208)"
  by (rule round_double_pos [where e = 8 and q = "- 44" and r = 5253906362164838])
     (simp_all add: eval_double)

lemma product_25_5: "round_double (2626953181082419 / 8796093022208 * 64) = Num (2626953181082419 / 137438953472)"
  by (rule round_double_pos [where e = 14 and q = "- 38" and r = 5253906362164838])
     (simp_all add: eval_double)

lemma literal_25_2: "round_double (126 / 5) = Num (7093169413108531 / 281474976710656)"
  by (rule round_double_pos [where e = 4 and q = "- 48" and r = 7093169413108531])
     (simp_all add: eval_double)

lemma sum_25_2: "round_double (7093169413108531 / 281474976710656 + 2402652809016115 / 8796093022208) = Num (5248628706351513 / 17592186044416)"
  by (rule round_double_pos [where e = 8 and q = "- 44" and r = 5248628706351513])
     (simp_all add: eval_double)

lemma product_25_2: "round_double (5248628706351513 / 17592186044416 * 64) = Num (5248628706351513 / 274877906944)"
  by (rule round_double_pos [where e = 14 and q = "- 38" and r = 5248628706351513])
     (simp_all add: eval_double)

lemma literal_26_85: "round_double (2685000000000001 / 100000000000000) = Num (1889400781170279 / 70368744177664)"
  by (rule round_double_pos [where e = 4 and q = "- 48" and r = 7557603124681116])
     (simp_all add: eval_double)

lemma sum_26_85: "round_double (1889400781170279 / 70368744177664 + 2402652809016115 / 8796093022208) = Num 300"
  by (rule round_double_pos [where e = 8 and q = "- 44" and r = 5277655813324800])
     (simp_all add: eval_double)

lemma product_26_85: "round_double (300 * 64) = Num 19200"
  by (rule round_double_pos [where e = 14 and q = "- 38" and r = 5277655813324800])
     (simp_all add: eval_double)

lemma product_h50: "round_double (50 * 512) = Num 25600"
  by (rule round_double_pos [where e = 14 and q = "- 38" and r = 7036874417766400])
     (simp_all add: eval_double)

lemma product_h51: "round_double (51 * 512) = Num 26112"
  by (rule round_double_pos [where e = 14 and q = "- 38" and r = 7177611906121728])
     (simp_all add: eval_double)

lemma temperature_compensation_run:
  "temperature_compensation b temp_c tr =
     (let buf = Buffer_from_hex (Number_toString 16
                  (Math_ceil (fmul (fadd temp_c (round_double (27315 / 100))) (Num 64)))) in
      (if b tr (WriteBlock 0x53 0x13 (length buf) buf) = None then Inl BusError else Inr True,
       tr @ [WriteBlock 0x53 0x13 (length buf) buf]))"
  by (simp add: temperature_compensation_def io_defs register_defs Let_def split: option.splits)

lemma humidity_compensation_run:
  "humidity_compensation b humidity tr =
     (let buf = Buffer_from_hex (Number_toString 16 (Math_ceil (fmul humidity (Num 512)))) in
      (if b tr (WriteBlock 0x53 0x15 (length buf) buf) = None then Inl BusError else Inr True,
       tr @ [WriteBlock 0x53 0x15 (length buf) buf]))"
  by (simp add: humidity_compensation_def io_defs register_defs Let_def split: option.splits)

lemma k64_defaults:
  "Math_ceil (fmul (fadd (Num 25) (round_double (27315 / 100))) (Num 64)) = Num (of_int 19082)"
  "Math_ceil (fmul (Num 50) (Num 512)) = Num (of_int 25600)"
  "Math_ceil (fmul (fadd (Num (51 / 2)) (round_double (27315 / 100))) (Num 64)) = Num (of_int 19114)"
  "Math_ceil (fmul (Num 51) (Num 512)) = Num (of_int 26112)"
  unfolding double_273_15 fadd.simps fmul.simps sum_25 sum_25_5 product_25 product_25_5
    product_h50 product_h51 Math_ceil.simps
  by simp_all

lemma k64_examples:
  "Math_ceil (fmul (fadd (Num (7093169413108531 / 281474976710656))
                         (round_double (27315 / 100))) (Num 64)) = Num (of_int 19095)"
  "Math_ceil (fmul (fadd (Num (1889400781170279 / 70368744177664))
                         (round_double (27315 / 100))) (Num 64)) = Num (of_int 19200)"
  unfolding double_273_15 fadd.simps fmul.simps sum_25_2 sum_26_85 product_25_2 product_26_85
    Math_ceil.simps
  by simp_all

lemma default_buffers:
  "Buffer_from_hex (Number_toString 16 (Num (of_int 19082))) = [0x4a, 0x8a]"
  "Buffer_from_hex (Number_toString 16 (Num (of_int 25600))) = [0x64, 0x00]"
  "Buffer_from_hex (Number_toString 16 (Num (of_int 19114))) = [0x4a, 0xaa]"
  "Buffer_from_hex (Number_toString 16 (Num (of_int 26112))) = [0x66, 0x00]"
  "Buffer_from_hex (Number_toString 16 (Num (of_int 19095))) = [0x4a, 0x97]"
  "Buffer_from_hex (Number_toString 16 (Num (of_int 19200))) = [0x4b, 0x00]"
  by (simp_all only: Buffer_from_hex4) simp_all

lemma default_compensation_run:
  "temperature_compensation b (Num 25) tr =
     (if b tr (WriteBlock 0x53 0x13 2 [0x4a, 0x8a]) = None then Inl BusError else Inr True,
      tr @ [WriteBlock 0x53 0x13 2 [0x4a, 0x8a]])"
  "humidity_compensation b (Num 50) tr =
     (if b tr (WriteBlock 0x53 0x15 2 [0x64, 0x00]) = None then Inl BusError else Inr True,
      tr @ [WriteBlock 0x53 0x15 2 [0x64, 0x00]])"
  "temperature_compensation b (Num (51 / 2)) tr =
     (if b tr (WriteBlock 0x53 0x13 2 [0x4a, 0xaa]) = None then Inl BusError else Inr True,
      tr @ [WriteBlock 0x53 0x13 2 [0x4a, 0xaa]])"
  "humidity_compensation b (Num 51) tr =
     (if b tr (WriteBlock 0x53 0x15 2 [0x66, 0x00]) = None then Inl BusError else Inr True,
      tr @ [WriteBlock 0x53 0x15 2 [0x66, 0x00]])"
  unfolding temperature_compensation_run humidity_compensation_run k64_defaults default_buffers
  by (simp_all add: Let_def numeral_2_eq_2)

lemma example_compensation_run:
  "temperature_compensation b (Num (7093169413108531 / 281474976710656)) tr =
     (if b tr (WriteBlock 0x53 0x13 2 [0x4a, 0x97]) = None then Inl BusError else Inr True,
      tr @ [WriteBlock 0x53 0x13 2 [0x4a, 0x97]])"
  "temperature_compensation b (Num (1889400781170279 / 70368744177664)) tr =
     (if b tr (WriteBlock 0x53 0x13 2 [0x4b, 0x00]) = None then Inl BusError else Inr True,
      tr @ [WriteBlock 0x53 0x13 2 [0x4b, 0x00]])"
  unfolding temperature_compensation_run k64_examples default_buffers
  by (simp_all add: Let_def numeral_2_eq_2)

lemmas run_simps =
  await_def sleep_def return_def throw_def reset_run check_run_if setMode_run clear_command_run
  default_compensation_run MODE_IDLE_def MODE_STANDARD_def

subsection \<open>The binary string of a status byte\<close>

lemma digit_char_bit: "digit_char 0 = CHR ''0''" "digit_char (Suc 0) = CHR ''1''"
  by (simp_all add: digit_char_def)

lemma bin_digits_zero: "bin_digits k 0 = replicate k (CHR ''0'')"
  by (induction k) (simp_all add: digit_char_bit replicate_append_same)

lemma length_toString_bin: "n < 2 ^ Suc k \<Longrightarrow> length (toString_nat 2 n) \<le> Suc k"
proof (induction k arbitrary: n)
  case 0
  then show ?case by (subst toString_nat.simps) simp
next
  case (Suc k)
  show ?case
  proof (cases "n < 2")
    case True
    then show ?thesis by (subst toString_nat.simps) simp
  next
    case False
    from Suc.prems have "n div 2 < 2 ^ Suc k" by simp
    then have "length (toString_nat 2 (n div 2)) \<le> Suc k" by (rule Suc.IH)
    with False show ?thesis by (subst toString_nat.simps) simp
  qed
qed

lemma padStart_bin:
  "n < 2 ^ Suc k \<Longrightarrow> padStart (Suc k) (CHR ''0'') (toString_nat 2 n) = bin_digits (Suc k) n"
proof (induction k arbitrary: n)
  case 0
  then have "n = 0 \<or> n = 1" by auto
  then show ?case
    by (subst toString_nat.simps) (auto simp: padStart_def)
next
  case (Suc k)
  show ?case
  proof (cases "n < 2")
    case True
    then have "n = 0 \<or> n = 1" by auto
    then show ?thesis
      by (subst toString_nat.simps)
         (auto simp: padStart_def bin_digits_zero digit_char_bit replicate_append_same)
  next
    case False
    from Suc.prems have small: "n div 2 < 2 ^ Suc k" by simp
    then have len: "length (toString_nat 2 (n div 2)) \<le> Suc k" by (rule length_toString_bin)
    have "toString_nat 2 n = toString_nat 2 (n div 2) @ [digit_char (n mod 2)]"
      using False by (subst toString_nat.simps) simp
    then have "padStart (Suc (Suc k)) (CHR ''0'') (toString_nat 2 n) =
        padStart (Suc k) (CHR ''0'') (toString_nat 2 (n div 2)) @ [digit_char (n mod 2)]"
      using len by (simp add: padStart_def)
    also have "\<dots> = bin_digits (Suc k) (n div 2) @ [digit_char (n mod 2)]"
      using small by (simp only: Suc.IH)
    finally show ?thesis by simp
  qed
qed

lemma bin8:
  assumes "n < 256"
  shows "padStart 8 (CHR ''0'') (toString_nat 2 n) =
     [digit_char (n div 128 mod 2), digit_char (n div 64 mod 2), digit_char (n div 32 mod 2),
      digit_char (n div 16 mod 2), digit_char (n div 8 mod 2), digit_char (n div 4 mod 2),
      digit_char (n div 2 mod 2), digit_char (n mod 2)]"
proof -
  have eight: "(8::nat) = Suc (Suc (Suc (Suc (Suc (Suc (Suc (Suc 0)))))))" by simp
  have "n < 2 ^ Suc (Suc (Suc (Suc (Suc (Suc (Suc (Suc 0)))))))" using assms by simp
  then have "padStart 8 (CHR ''0'') (toString_nat 2 n) =
      bin_digits (Suc (Suc (Suc (Suc (Suc (Suc (Suc (Suc 0)))))))) n"
    unfolding eight by (rule padStart_bin)
  also have "\<dots> =
     [digit_char (n div 2 div 2 div 2 div 2 div 2 div 2 div 2 mod 2),
      digit_char (n div 2 div 2 div 2 div 2 div 2 div 2 mod 2),
      digit_char (n div 2 div 2 div 2 div 2 div 2 mod 2),
      digit_char (n div 2 div 2 div 2 div 2 mod 2),
      digit_char (n div 2 div 2 div 2 mod 2),
      digit_char (n div 2 div 2 mod 2),
      digit_char (n div 2 mod 2), digit_char (n mod 2)]"
    by (simp only: bin_digits.simps append.simps)
  also have "\<dots> =
     [digit_char (n div 128 mod 2), digit_char (n div 64 mod 2), digit_char (n div 32 mod 2),
      digit_char (n div 16 mod 2), digit_char (n div 8 mod 2), digit_char (n div 4 mod 2),
      digit_char (n div 2 mod 2), digit_char (n mod 2)]"
    by (simp add: div_mult2_eq [symmetric])
  finally show ?thesis .
qed

lemma bit_char:
  "(digit_char (k mod 2) = CHR ''1'') = odd k"
  "parseInt [digit_char (k mod 2)] = Some (k mod 2)"
proof -
  have "k mod 2 = 0 \<or> k mod 2 = 1" by arith
  then show "(digit_char (k mod 2) = CHR ''1'') = odd k"
    by (auto simp: digit_char_bit odd_iff_mod_2_eq_one)
  from \<open>k mod 2 = 0 \<or> k mod 2 = 1\<close> show "parseInt [digit_char (k mod 2)] = Some (k mod 2)"
    by (auto simp: digit_char_bit parseInt_def is_digit_def)
qed

lemma parse_bit:
  "parseInt [digit_char 0] = Some 0" "parseInt [digit_char (Suc 0)] = Some (Suc 0)"
  by (simp_all add: digit_char_bit parseInt_def is_digit_def)

lemma status_decode_bits:
  "status_decode x =
     \<lparr>opmode = bit x 7, error = bit x 6,
      status_type = (if bit x 3 then warmup else normal)\<rparr>"
proof -
  have n: "unat x < 256" using unsigned_less [of x] by simp
  have b: "bit x 7 = odd (unat x div 128)" "bit x 6 = odd (unat x div 64)"
      "bit x 3 = odd (unat x div 8)"
  proof -
    have "bit x 7 = bit (unat x) 7" "bit x 6 = bit (unat x) 6" "bit x 3 = bit (unat x) 3"
      by (simp_all add: bit_unsigned_iff)
    then show "bit x 7 = odd (unat x div 128)" "bit x 6 = odd (unat x div 64)"
      "bit x 3 = odd (unat x div 8)"
      by (simp_all add: bit_iff_odd)
  qed
  have sel: "unat x div 8 mod 2 = 0 \<or> unat x div 8 mod 2 = 1" by arith
  show ?thesis
    using sel
    by (auto simp: status_decode_def bin8 [OF n] substring_def bit_char parse_bit b Let_def
        odd_iff_mod_2_eq_one)
qed

lemma status_run:
  "b tr (ReadBlock 0x53 0x20 1) = Some [x] \<Longrightarrow>
     status b tr = (Inr (status_decode x), tr @ [ReadBlock 0x53 0x20 1])"
  by (simp add: status_def io_defs register_defs)

subsection \<open>Runs of the composite operations\<close>

lemma replay_simps:
  "replay rs tr ev = (if length (filter is_transfer tr) < length rs
                      then rs ! length (filter is_transfer tr) else None)"
  by (simp add: replay_def Let_def)

lemma init_accepting_device:
  "fst (init (replay (replicate 9 (Some [0x60, 0x01]))) []) = Inr True"
  "fst (init_js (replay (replicate 9 (Some [0x60, 0x01]))) []) = Inr True"
  by (simp_all add: init_def init_js_def run_simps replay_simps numeral_eq_Suc)

lemma init_wrong_device:
  "fst (init (replay [Some [], Some [0x61, 0x01]]) []) = Inl IdentityMismatch"
  "fst (init_js (replay [Some [], Some [0x61, 0x01]]) []) = Inl IdentityMismatch"
  by (simp_all add: init_def init_js_def run_simps replay_simps)

lemma no_false:
  "fst (setMode b mode tr) \<noteq> Inr False"
  "fst (reset b tr) \<noteq> Inr False"
  "fst (check b tr) \<noteq> Inr False"
  "fst (clear_command b tr) \<noteq> Inr False"
  "fst (temperature_compensation b temp_c tr) \<noteq> Inr False"
  "fst (humidity_compensation b humidity tr) \<noteq> Inr False"
  by (simp_all add: setMode_run reset_run check_run_if clear_command_run
      temperature_compensation_run humidity_compensation_run Let_def)

lemma init_no_false:
  "fst (init b tr) \<noteq> Inr False" "fst (init_js b tr) \<noteq> Inr False"
  by (simp_all add: init_def init_js_def run_simps)

lemma init_no_DeviceNotDetected:
  "fst (init b tr) \<noteq> Inl DeviceNotDetected" "fst (init_js b tr) \<noteq> Inl DeviceNotDetected"
  by (simp_all add: init_def init_js_def run_simps)

lemmas firmware_simps =
  firmware_version_def await_def sleep_def return_def throw_def getMode_single setMode_saved setMode_idle
  clear_command_run writeI2cBlock_run Buffer_from_array_def read_gpr_run MODE_IDLE_def

lemma firmware_success:
  assumes "b tr (ReadBlock 0x53 0x10 1) = Some [m]"
  shows "fst (firmware_version b tr) = Inr v \<longrightarrow>
     snd (firmware_version b tr) = tr @ firmware_steps m \<and> sint m \<in> set VALID_MODES"
  using assms
  by (simp add: firmware_simps firmware_steps_def register_defs split: if_splits)

lemma firmware_failure:
  assumes "b tr (ReadBlock 0x53 0x10 1) = Some [m]"
  shows "fst (firmware_version b tr) = Inl e \<longrightarrow>
     prefix (snd (firmware_version b tr)) (tr @ butlast (firmware_steps m)) \<and>
     (b (butlast (snd (firmware_version b tr))) (last (snd (firmware_version b tr))) = None \<and>
        e = BusError \<or>
      snd (firmware_version b tr) = tr @ take 9 (firmware_steps m) \<and> e = InvalidMode (sint m))"
  using assms
  by (simp add: firmware_simps firmware_steps_def register_defs butlast_append split: if_splits)

lemma toString_digit: "n < 10 \<Longrightarrow> toString_nat 10 n = [digit_char n]"
  by (subst toString_nat.simps) simp

lemma version_string_example: "version_string [0, 0, 0, 0, 1, 4, 2, 0] = ''1.4.2''"
  by (simp add: version_string_def toString_digit digit_char_def parseInt_def is_digit_def
      template_number_def)

lemma firmware_example_runs:
  "fst (firmware_version
         (replay [Some [0x02], Some [], Some [], Some [], Some [],
                  Some [0, 0, 0, 0, 1, 4, 2, 0], Some []]) []) = Inr ''1.4.2''"
  "fst (firmware_version (replay [Some [0x02], Some [], Some [], Some [], None]) [])
     = Inl BusError"
  by (simp_all add: firmware_version_def await_def sleep_def return_def throw_def getMode_run
      setMode_run clear_command_run writeI2cBlock_run Buffer_from_array_def read_gpr_run
      MODE_IDLE_def replay_simps register_defs version_string_example)

lemma init_rejected_identity_read:
  "fst (init (replay [Some [], None]) []) = Inl BusError"
  "fst (init_js (replay [Some [], None]) []) = Inl BusError"
  by (simp_all add: init_def init_js_def run_simps replay_simps)

lemma firmware_until_restore:
  assumes "b tr (ReadBlock 0x53 0x10 1) = Some [m]"
  shows "firmware_version b tr =
     (case run_steps b (take 9 (firmware_steps m)) tr of
        (Some e, t) \<Rightarrow> (Inl e, t)
      | (None, t) \<Rightarrow>
          (case setMode b (sint m) t of
             (Inl e, t') \<Rightarrow> (Inl e, t')
           | (Inr ok, t') \<Rightarrow>
               (Inr (version_string
                      (take 8 (the (b (tr @ take 8 (firmware_steps m))
                                      (ReadBlock ENS160_I2CADDR ENS160_CMD_READGPR 8))
                               @ replicate 8 0))),
                t')))"
  using assms
  by (simp add: firmware_version_def await_def sleep_def return_def throw_def getMode_single
      setMode_idle clear_command_run writeI2cBlock_run Buffer_from_array_def read_gpr_run
      MODE_IDLE_def firmware_steps_def ENS160_I2CADDR_def ENS160_CMD_OPMODE_def
      ENS160_CMD_COMMAND_def ENS160_CMD_READGPR_def COMMAND_GETAPPVER_def
      split: prod.splits sum.splits)

lemma setMode_saved_steps:
  fixes m :: byte
  shows "setMode b (sint m) t =
     (if sint m \<notin> set VALID_MODES then (Inl (InvalidMode (sint m)), t)
      else
        (case run_steps b (drop 9 (firmware_steps m)) t of
           (Some e, t') \<Rightarrow> (Inl e, t')
         | (None, t') \<Rightarrow> (Inr True, t')))"
proof -
  have v: "set VALID_MODES = {0x00, 0x01, 0x02, 0xF0}"
    by (simp add: register_defs)
  have d: "drop 9 (firmware_steps m) = [WriteBlock 0x53 0x10 1 [m], Sleep 10]"
    by (simp add: firmware_steps_def ENS160_I2CADDR_def ENS160_CMD_OPMODE_def)
  show ?thesis
    unfolding setMode_saved v d
    by (cases "sint m \<notin> {0x00, 0x01, 0x02, 0xF0}") simp_all
qed

lemma firmware_run:
  assumes "b tr (ReadBlock 0x53 0x10 1) = Some [m]"
  shows "firmware_version b tr =
     (case run_steps b (take 9 (firmware_steps m)) tr of
        (Some e, t) \<Rightarrow> (Inl e, t)
      | (None, t) \<Rightarrow>
          if sint m \<notin> set VALID_MODES then (Inl (InvalidMode (sint m)), t)
          else
            (case run_steps b (drop 9 (firmware_steps m)) t of
               (Some e, t') \<Rightarrow> (Inl e, t')
             | (None, t') \<Rightarrow>
                 (Inr (version_string
                        (take 8 (the (b (tr @ take 8 (firmware_steps m))
                                        (ReadBlock ENS160_I2CADDR ENS160_CMD_READGPR 8))
                                 @ replicate 8 0))),
                  t')))"
  unfolding firmware_until_restore [where b = b and tr = tr and m = m, OF assms]
    setMode_saved_steps
  by (simp split: prod.splits option.splits)

lemma firmware_mode_read_rejected:
  "b tr (ReadBlock 0x53 0x10 1) = None \<Longrightarrow>
     firmware_version b tr = (Inl BusError, tr @ [ReadBlock 0x53 0x10 1])"
  by (simp add: firmware_version_def await_def getMode_run)

section \<open>Initialization order\<close>

text \<open>
  Claim C1. Initialization performs its steps in one fixed order: the startup wait,
  setMode(Reset), check, setMode(Idle), the clear-command protocol, setMode(Standard), then
  the default temperature and humidity compensation writes. Whatever the bus does, the
  result and the effects of \<open>init\<close> are those of issuing that sequence step by step and
  stopping at the first failure: a transfer that the bus rejects makes \<open>init\<close> fail with
  the bus error, an identity read that delivers another part ID makes it fail with the
  identity error, and in both cases no later step is issued; with no failure all steps
  are issued and the result is true. Hence the effects are an initial segment of the
  sequence, complete on success, ending at the failing step otherwise. The same holds for
  the compiled \<open>init\<close>, whose defaults are 25.5 and 51.
\<close>

theorem init_order:
  "init b tr = run_init_steps b (init_steps [0x4a, 0x8a] [0x64, 0x00]) tr \<and>
   init_js b tr = run_init_steps b (init_steps [0x4a, 0xaa] [0x66, 0x00]) tr \<and>
   prefix tr (snd (init b tr)) \<and>
   prefix (snd (init b tr)) (tr @ init_steps [0x4a, 0x8a] [0x64, 0x00]) \<and>
   (fst (init b tr) = Inr True \<longrightarrow> snd (init b tr) = tr @ init_steps [0x4a, 0x8a] [0x64, 0x00]) \<and>
   (fst (init b tr) \<noteq> Inr True \<longrightarrow> stops_at_failure b (init b tr)) \<and>
   prefix tr (snd (init_js b tr)) \<and>
   prefix (snd (init_js b tr)) (tr @ init_steps [0x4a, 0xaa] [0x66, 0x00]) \<and>
   (fst (init_js b tr) = Inr True \<longrightarrow>
      snd (init_js b tr) = tr @ init_steps [0x4a, 0xaa] [0x66, 0x00]) \<and>
   (fst (init_js b tr) \<noteq> Inr True \<longrightarrow> stops_at_failure b (init_js b tr))"
proof -
  have e1: "init b tr = run_init_steps b (init_steps [0x4a, 0x8a] [0x64, 0x00]) tr"
    by (simp add: init_def run_simps init_steps_def register_defs)
  have e2: "init_js b tr = run_init_steps b (init_steps [0x4a, 0xaa] [0x66, 0x00]) tr"
    by (simp add: init_js_def run_simps init_steps_def register_defs)
  have t1: "prefix tr (snd (init b tr)) \<and>
      prefix (snd (init b tr)) (tr @ init_steps [0x4a, 0x8a] [0x64, 0x00])"
    by (simp add: init_def run_simps init_steps_def register_defs)
  have s1: "fst (init b tr) = Inr True \<longrightarrow>
      snd (init b tr) = tr @ init_steps [0x4a, 0x8a] [0x64, 0x00]"
    by (simp add: init_def run_simps init_steps_def register_defs split: if_splits)
  have f1: "fst (init b tr) \<noteq> Inr True \<longrightarrow> stops_at_failure b (init b tr)"
    by (simp add: init_def run_simps stops_at_failure_def register_defs butlast_append
        split: if_splits)
  have t2: "prefix tr (snd (init_js b tr)) \<and>
      prefix (snd (init_js b tr)) (tr @ init_steps [0x4a, 0xaa] [0x66, 0x00])"
    by (simp add: init_js_def run_simps init_steps_def register_defs)
  have s2: "fst (init_js b tr) = Inr True \<longrightarrow>
      snd (init_js b tr) = tr @ init_steps [0x4a, 0xaa] [0x66, 0x00]"
    by (simp add: init_js_def run_simps init_steps_def register_defs split: if_splits)
  have f2: "fst (init_js b tr) \<noteq> Inr True \<longrightarrow> stops_at_failure b (init_js b tr)"
    by (simp add: init_js_def run_simps stops_at_failure_def register_defs butlast_append
        split: if_splits)
  from e1 e2 t1 s1 f1 t2 s2 f2 show ?thesis by blast
qed

theorem init_order_witness:
  "snd (init (replay (replicate 9 (Some [0x60, 0x01]))) []) = init_steps [0x4a, 0x8a] [0x64, 0x00] \<and>
   snd (init_js (replay (replicate 9 (Some [0x60, 0x01]))) []) = init_steps [0x4a, 0xaa] [0x66, 0x00] \<and>
   stops_at_failure (replay [Some [], Some [0x61, 0x01]])
     (init (replay [Some [], Some [0x61, 0x01]]) []) \<and>
   stops_at_failure (replay [Some [], Some [0x61, 0x01]])
     (init_js (replay [Some [], Some [0x61, 0x01]]) []) \<and>
   fst (run_init_steps (replay [Some [], None]) (init_steps [0x4a, 0x8a] [0x64, 0x00]) []) =
     Inl BusError \<and>
   fst (run_init_steps (replay [Some [], None]) (init_steps [0x4a, 0xaa] [0x66, 0x00]) []) =
     Inl BusError"
proof -
  note ok = init_order [of "replay (replicate 9 (Some [0x60, 0x01]))" "[]"]
  note wrong = init_order [of "replay [Some [], Some [0x61, 0x01]]" "[]"]
  note rejected = init_order [of "replay [Some [], None]" "[]"]
  from ok have
    "fst (init (replay (replicate 9 (Some [0x60, 0x01]))) []) = Inr True \<longrightarrow>
       snd (init (replay (replicate 9 (Some [0x60, 0x01]))) []) =
         [] @ init_steps [0x4a, 0x8a] [0x64, 0x00]"
    "fst (init_js (replay (replicate 9 (Some [0x60, 0x01]))) []) = Inr True \<longrightarrow>
       snd (init_js (replay (replicate 9 (Some [0x60, 0x01]))) []) =
         [] @ init_steps [0x4a, 0xaa] [0x66, 0x00]"
    by blast+
  then have w1:
    "snd (init (replay (replicate 9 (Some [0x60, 0x01]))) []) = init_steps [0x4a, 0x8a] [0x64, 0x00]"
    "snd (init_js (replay (replicate 9 (Some [0x60, 0x01]))) []) =
       init_steps [0x4a, 0xaa] [0x66, 0x00]"
    by (simp_all only: init_accepting_device append_Nil simp_thms)
  from wrong have
    "fst (init (replay [Some [], Some [0x61, 0x01]]) []) \<noteq> Inr True \<longrightarrow>
       stops_at_failure (replay [Some [], Some [0x61, 0x01]])
         (init (replay [Some [], Some [0x61, 0x01]]) [])"
    "fst (init_js (replay [Some [], Some [0x61, 0x01]]) []) \<noteq> Inr True \<longrightarrow>
       stops_at_failure (replay [Some [], Some [0x61, 0x01]])
         (init_js (replay [Some [], Some [0x61, 0x01]]) [])"
    by blast+
  then have w2:
    "stops_at_failure (replay [Some [], Some [0x61, 0x01]])
       (init (replay [Some [], Some [0x61, 0x01]]) [])"
    "stops_at_failure (replay [Some [], Some [0x61, 0x01]])
       (init_js (replay [Some [], Some [0x61, 0x01]]) [])"
    by (simp_all add: init_wrong_device)
  from rejected have
    "init (replay [Some [], None]) [] =
       run_init_steps (replay [Some [], None]) (init_steps [0x4a, 0x8a] [0x64, 0x00]) []"
    "init_js (replay [Some [], None]) [] =
       run_init_steps (replay [Some [], None]) (init_steps [0x4a, 0xaa] [0x66, 0x00]) []"
    by blast+
  then have w3:
    "fst (run_init_steps (replay [Some [], None]) (init_steps [0x4a, 0x8a] [0x64, 0x00]) []) =
       Inl BusError"
    "fst (run_init_steps (replay [Some [], None]) (init_steps [0x4a, 0xaa] [0x66, 0x00]) []) =
       Inl BusError"
    using init_rejected_identity_read by (simp_all only:)
  from w1 w2 w3 show ?thesis by blast
qed

section \<open>Mode validation\<close>

text \<open>
  Claim C2. For every argument outside \<open>{0x00, 0x01, 0x02, 0xF0}\<close>, \<open>setMode\<close> fails with
  InvalidMode and leaves the trace unchanged: the check precedes any bus access. For
  every argument in the set, the only transfer is one write of a single byte, equal to
  the argument, to the mode register (followed by the settle wait when the bus accepts it).
\<close>

theorem setMode_validates_before_bus:
  "(mode \<notin> {0x00, 0x01, 0x02, 0xF0} \<longrightarrow> setMode b mode tr = (Inl (InvalidMode mode), tr)) \<and>
   (mode \<in> {0x00, 0x01, 0x02, 0xF0} \<longrightarrow>
      (\<exists>x :: byte. uint x = mode \<and>
         setMode b mode tr =
           (if b tr (WriteBlock ENS160_I2CADDR ENS160_CMD_OPMODE 1 [x]) = None
            then (Inl BusError, tr @ [WriteBlock ENS160_I2CADDR ENS160_CMD_OPMODE 1 [x]])
            else (Inr True, tr @ [WriteBlock ENS160_I2CADDR ENS160_CMD_OPMODE 1 [x], Sleep 10]))))"
proof (intro conjI impI)
  assume "mode \<notin> {0x00, 0x01, 0x02, 0xF0}"
  then show "setMode b mode tr = (Inl (InvalidMode mode), tr)"
    by (simp add: setMode_run)
next
  assume valid: "mode \<in> {0x00, 0x01, 0x02, 0xF0}"
  then have "uint (word_of_int mode :: byte) = mode"
    by auto
  moreover have "setMode b mode tr =
      (if b tr (WriteBlock ENS160_I2CADDR ENS160_CMD_OPMODE 1 [word_of_int mode]) = None
       then (Inl BusError, tr @ [WriteBlock ENS160_I2CADDR ENS160_CMD_OPMODE 1 [word_of_int mode]])
       else (Inr True,
             tr @ [WriteBlock ENS160_I2CADDR ENS160_CMD_OPMODE 1 [word_of_int mode], Sleep 10]))"
    using valid by (simp add: setMode_run ENS160_I2CADDR_def ENS160_CMD_OPMODE_def)
  ultimately show "\<exists>x :: byte. uint x = mode \<and>
         setMode b mode tr =
           (if b tr (WriteBlock ENS160_I2CADDR ENS160_CMD_OPMODE 1 [x]) = None
            then (Inl BusError, tr @ [WriteBlock ENS160_I2CADDR ENS160_CMD_OPMODE 1 [x]])
            else (Inr True, tr @ [WriteBlock ENS160_I2CADDR ENS160_CMD_OPMODE 1 [x], Sleep 10]))"
    by blast
qed

theorem setMode_validates_before_bus_witness:
  "setMode (replay [Some []]) 3 [] = (Inl (InvalidMode 3), []) \<and>
   setMode (replay [Some []]) 0xF0 [] =
     (Inr True, [WriteBlock ENS160_I2CADDR ENS160_CMD_OPMODE 1 [0xF0], Sleep 10])"
proof -
  have "(3::int) \<notin> {0x00, 0x01, 0x02, 0xF0}" by simp
  with setMode_validates_before_bus [of 3 "replay [Some []]" "[]"]
  have a: "setMode (replay [Some []]) 3 [] = (Inl (InvalidMode 3), [])" by blast
  have "(0xF0::int) \<in> {0x00, 0x01, 0x02, 0xF0}" by simp
  with setMode_validates_before_bus [of "0xF0" "replay [Some []]" "[]"]
  obtain x :: byte where x: "uint x = 0xF0"
    and run: "setMode (replay [Some []]) 0xF0 [] =
           (if replay [Some []] [] (WriteBlock ENS160_I2CADDR ENS160_CMD_OPMODE 1 [x]) = None
            then (Inl BusError, [] @ [WriteBlock ENS160_I2CADDR ENS160_CMD_OPMODE 1 [x]])
            else (Inr True, [] @ [WriteBlock ENS160_I2CADDR ENS160_CMD_OPMODE 1 [x], Sleep 10]))"
    by blast
  from x have "uint x = uint (0xF0 :: byte)" by simp
  then have "x = 0xF0" by (simp only: word_uint_eq_iff)
  with run have "setMode (replay [Some []]) 0xF0 [] =
     (Inr True, [WriteBlock ENS160_I2CADDR ENS160_CMD_OPMODE 1 [0xF0], Sleep 10])"
    by (simp add: replay_simps)
  with a show ?thesis by simp
qed

section \<open>Compensation encoding\<close>

text \<open>
  Claim C3, as stated: \<open>temperature_compensation\<close> writes the 2-byte little-endian
  encoding of \<open>round((t + 273.15) * 64)\<close> and \<open>humidity_compensation\<close> that of
  \<open>round(h * 512)\<close>. The driver does not: at 25 degrees it writes \<open>[0x4a, 0x8a]\<close>, the
  high byte first, where the stated encoding is \<open>[0x8a, 0x4a]\<close>; at 50 percent it writes
  \<open>[0x64, 0x00]\<close> where the stated encoding is \<open>[0x00, 0x64]\<close>; and at the double 25.2 it
  encodes 19095, the value rounded up, where rounding to nearest gives 19094.
\<close>

theorem compensation_byte_order_counterexample:
  "snd (temperature_compensation (replay [Some []]) (Num 25) []) =
     [WriteBlock ENS160_I2CADDR ENS160_CMD_TEMPIN 2 [0x4a, 0x8a]] \<and>
   spec_temperature_bytes 25 = [0x8a, 0x4a] \<and>
   snd (humidity_compensation (replay [Some []]) (Num 50) []) =
     [WriteBlock ENS160_I2CADDR ENS160_CMD_RHIN 2 [0x64, 0x00]] \<and>
   spec_humidity_bytes 50 = [0x00, 0x64] \<and>
   round_double (126 / 5) = Num (7093169413108531 / 281474976710656) \<and>
   snd (temperature_compensation (replay [Some []])
          (Num (7093169413108531 / 281474976710656)) []) =
     [WriteBlock ENS160_I2CADDR ENS160_CMD_TEMPIN 2 [0x4a, 0x97]] \<and>
   spec_temperature_bytes (7093169413108531 / 281474976710656) = [0x96, 0x4a]"
proof -
  have rounded: "round ((25 + 27315 / 100) * 64 :: rat) = 19082" "round (50 * 512 :: rat) = 25600"
    "round ((7093169413108531 / 281474976710656 + 27315 / 100) * 64 :: rat) = 19094"
    by (simp_all add: round_def floor_eq_iff)
  have "spec_temperature_bytes 25 = [0x8a, 0x4a]" "spec_humidity_bytes 50 = [0x00, 0x64]"
    "spec_temperature_bytes (7093169413108531 / 281474976710656) = [0x96, 0x4a]"
    unfolding spec_temperature_bytes_def spec_humidity_bytes_def rounded
    by (simp_all add: le16_def)
  then show ?thesis
    by (simp add: default_compensation_run example_compensation_run literal_25_2
        ENS160_I2CADDR_def ENS160_CMD_TEMPIN_def ENS160_CMD_RHIN_def)
qed

section \<open>Compensation encoding, as the driver performs it\<close>

text \<open>
  Claim C3, amended. Let \<open>kt\<close> be the integer \<open>Math.ceil((t + 273.15) * 64)\<close> as the driver
  computes it in double arithmetic (the sum and the product each rounded to the nearest
  double), and \<open>kh\<close> the integer \<open>Math.ceil(h * 512)\<close> computed likewise. Whenever the
  value lies between \<open>0x1000\<close> and \<open>0xFFFF\<close> (four hexadecimal digits), the driver issues
  exactly one write, of exactly the two bytes \<open>k div 256\<close> and \<open>k mod 256\<close> in this order
  (high byte first), to the temperature-input register and to the humidity-input register
  respectively. At the double 26.85000000000001, where the sum rounds to 300, the value
  is 19200 and the bytes are \<open>[0x4b, 0x00]\<close>.
\<close>

theorem compensation_writes_high_byte_first:
  "(Math_ceil (fmul (fadd temp_c (round_double (27315 / 100))) (Num 64)) = Num (of_int kt) \<and>
    4096 \<le> kt \<and> kt < 65536 \<longrightarrow>
      temperature_compensation b temp_c tr =
        (if b tr (WriteBlock ENS160_I2CADDR ENS160_CMD_TEMPIN 2
                   [word_of_int (kt div 256), word_of_int (kt mod 256)]) = None
         then Inl BusError else Inr True,
         tr @ [WriteBlock ENS160_I2CADDR ENS160_CMD_TEMPIN 2
                [word_of_int (kt div 256), word_of_int (kt mod 256)]])) \<and>
   (Math_ceil (fmul humidity (Num 512)) = Num (of_int kh) \<and> 4096 \<le> kh \<and> kh < 65536 \<longrightarrow>
      humidity_compensation b humidity tr' =
        (if b tr' (WriteBlock ENS160_I2CADDR ENS160_CMD_RHIN 2
                    [word_of_int (kh div 256), word_of_int (kh mod 256)]) = None
         then Inl BusError else Inr True,
         tr' @ [WriteBlock ENS160_I2CADDR ENS160_CMD_RHIN 2
                 [word_of_int (kh div 256), word_of_int (kh mod 256)]]))"
proof (intro conjI impI)
  assume h: "Math_ceil (fmul (fadd temp_c (round_double (27315 / 100))) (Num 64)) =
      Num (of_int kt) \<and> 4096 \<le> kt \<and> kt < 65536"
  then have e: "Math_ceil (fmul (fadd temp_c (round_double (27315 / 100))) (Num 64)) =
      Num (of_int kt)" and r: "4096 \<le> kt" "kt < 65536"
    by blast+
  have buf: "Buffer_from_hex (Number_toString 16 (Num (of_int kt))) =
      [word_of_int (kt div 256), word_of_int (kt mod 256)]"
    using r by (rule Buffer_from_hex4)
  show "temperature_compensation b temp_c tr =
        (if b tr (WriteBlock ENS160_I2CADDR ENS160_CMD_TEMPIN 2
                   [word_of_int (kt div 256), word_of_int (kt mod 256)]) = None
         then Inl BusError else Inr True,
         tr @ [WriteBlock ENS160_I2CADDR ENS160_CMD_TEMPIN 2
                [word_of_int (kt div 256), word_of_int (kt mod 256)]])"
    unfolding temperature_compensation_run e buf
    by (simp add: Let_def ENS160_I2CADDR_def ENS160_CMD_TEMPIN_def numeral_2_eq_2)
next
  assume h: "Math_ceil (fmul humidity (Num 512)) = Num (of_int kh) \<and> 4096 \<le> kh \<and> kh < 65536"
  then have e: "Math_ceil (fmul humidity (Num 512)) = Num (of_int kh)"
    and r: "4096 \<le> kh" "kh < 65536"
    by blast+
  have buf: "Buffer_from_hex (Number_toString 16 (Num (of_int kh))) =
      [word_of_int (kh div 256), word_of_int (kh mod 256)]"
    using r by (rule Buffer_from_hex4)
  show "humidity_compensation b humidity tr' =
        (if b tr' (WriteBlock ENS160_I2CADDR ENS160_CMD_RHIN 2
                    [word_of_int (kh div 256), word_of_int (kh mod 256)]) = None
         then Inl BusError else Inr True,
         tr' @ [WriteBlock ENS160_I2CADDR ENS160_CMD_RHIN 2
                 [word_of_int (kh div 256), word_of_int (kh mod 256)]])"
    unfolding humidity_compensation_run e buf
    by (simp add: Let_def ENS160_I2CADDR_def ENS160_CMD_RHIN_def numeral_2_eq_2)
qed

theorem compensation_writes_high_byte_first_witness:
  "round_double (2685000000000001 / 100000000000000) =
     Num (1889400781170279 / 70368744177664) \<and>
   snd (temperature_compensation (replay []) (Num (1889400781170279 / 70368744177664)) []) =
     [WriteBlock ENS160_I2CADDR ENS160_CMD_TEMPIN 2 [0x4b, 0x00]] \<and>
   snd (humidity_compensation (replay []) (Num 51) []) =
     [WriteBlock ENS160_I2CADDR ENS160_CMD_RHIN 2 [0x66, 0x00]]"
proof -
  have k: "Math_ceil (fmul (fadd (Num (1889400781170279 / 70368744177664))
                         (round_double (27315 / 100))) (Num 64)) = Num (of_int 19200) \<and>
      (4096::int) \<le> 19200 \<and> (19200::int) < 65536"
    "Math_ceil (fmul (Num 51) (Num 512)) = Num (of_int 26112) \<and>
      (4096::int) \<le> 26112 \<and> (26112::int) < 65536"
    by (simp_all only: k64_examples k64_defaults) simp_all
  from k compensation_writes_high_byte_first
    [where temp_c = "Num (1889400781170279 / 70368744177664)" and kt = 19200
       and humidity = "Num 51" and kh = 26112 and b = "replay []" and tr = "[]" and tr' = "[]"]
  have "temperature_compensation (replay []) (Num (1889400781170279 / 70368744177664)) [] =
        (if replay [] [] (WriteBlock ENS160_I2CADDR ENS160_CMD_TEMPIN 2
                   [word_of_int (19200 div 256), word_of_int (19200 mod 256)]) = None
         then Inl BusError else Inr True,
         [] @ [WriteBlock ENS160_I2CADDR ENS160_CMD_TEMPIN 2
                [word_of_int (19200 div 256), word_of_int (19200 mod 256)]])"
    "humidity_compensation (replay []) (Num 51) [] =
        (if replay [] [] (WriteBlock ENS160_I2CADDR ENS160_CMD_RHIN 2
                    [word_of_int (26112 div 256), word_of_int (26112 mod 256)]) = None
         then Inl BusError else Inr True,
         [] @ [WriteBlock ENS160_I2CADDR ENS160_CMD_RHIN 2
                 [word_of_int (26112 div 256), word_of_int (26112 mod 256)]])"
    by blast+
  then show ?thesis
    by (simp add: literal_26_85)
qed

section \<open>Status decoding\<close>

text \<open>
  Claim C4, as stated, ends with: the byte \<open>0b10010000\<close> decodes to opmode true, error
  false, status Warmup. The driver decodes it to status Normal. It also decodes the byte
  \<open>0b00001000\<close>, whose bits 3-2 are 2, to Warmup rather than Startup: the selector it
  parses is the single character at index 4 of the binary string, which is bit 3.
\<close>

theorem status_warmup_example_counterexample:
  "fst (status (replay [Some [0x90]]) []) =
     Inr \<lparr>opmode = True, error = False, status_type = normal\<rparr> \<and>
   fst (status (replay [Some [0x90]]) []) \<noteq>
     Inr \<lparr>opmode = True, error = False, status_type = warmup\<rparr> \<and>
   status_type (status_decode 0x08) = warmup"
proof -
  have bits: "bit (0x90 :: byte) 7" "\<not> bit (0x90 :: byte) 6" "\<not> bit (0x90 :: byte) 3"
    "bit (0x08 :: byte) 3"
    by (simp_all add: bit_iff_odd_drop_bit drop_bit_eq_div)
  then show ?thesis
    by (simp add: status_run replay_simps status_decode_bits)
qed

section \<open>Status decoding, the flags\<close>

text \<open>
  Claim C4, amended. For every status byte \<open>x\<close> delivered by the 1-byte read of the
  status register, \<open>status\<close> returns a snapshot whose opmode flag is bit 7 of \<open>x\<close> and
  whose error flag is bit 6 of \<open>x\<close>, and whose validity status is Normal when bits 3 and 2
  are both clear; in particular \<open>0b10010000\<close> decodes to opmode true, error false, status
  Normal.
\<close>

theorem status_flags:
  "b tr (ReadBlock ENS160_I2CADDR ENS160_CMD_STATUS 1) = Some [x] \<longrightarrow>
     fst (status b tr) = Inr (status_decode x) \<and>
     snd (status b tr) = tr @ [ReadBlock ENS160_I2CADDR ENS160_CMD_STATUS 1] \<and>
     opmode (status_decode x) = bit x 7 \<and>
     error (status_decode x) = bit x 6 \<and>
     (\<not> bit x 3 \<and> \<not> bit x 2 \<longrightarrow> status_type (status_decode x) = normal)"
  by (simp add: status_run status_decode_bits ENS160_I2CADDR_def ENS160_CMD_STATUS_def)

theorem status_flags_witness:
  "fst (status (replay [Some [0x90]]) []) =
     Inr \<lparr>opmode = True, error = False, status_type = normal\<rparr>"
proof -
  have r: "replay [Some [0x90]] [] (ReadBlock ENS160_I2CADDR ENS160_CMD_STATUS 1) = Some [0x90]"
    by (simp add: replay_simps)
  have bits: "bit (0x90 :: byte) 7" "\<not> bit (0x90 :: byte) 6" "\<not> bit (0x90 :: byte) 3"
    "\<not> bit (0x90 :: byte) 2"
    by (simp_all add: bit_iff_odd_drop_bit drop_bit_eq_div)
  from status_flags [of "replay [Some [0x90]]" "[]" "0x90"] r bits
  show ?thesis by (cases "status_decode 0x90") simp
qed

section \<open>Mode restoration in firmware_version\<close>

text \<open>
  Claim C5, as stated: whenever the initial mode read succeeds, \<open>firmware_version\<close>
  issues a setMode with the saved value before it completes, with a result or with an
  error. On a device whose mode register reads Standard (2) and whose general-purpose
  register read is rejected, the mode read succeeds, the operation completes with the bus
  error, and no write of the saved mode was issued.
\<close>

theorem firmware_version_skips_restore_counterexample:
  "fst (getMode (replay [Some [0x02], Some [], Some [], Some [], Some [], None]) []) = Inr 2 \<and>
   fst (firmware_version (replay [Some [0x02], Some [], Some [], Some [], Some [], None]) [])
     = Inl BusError \<and>
   WriteBlock ENS160_I2CADDR ENS160_CMD_OPMODE 1 [0x02]
     \<notin> set (snd (firmware_version (replay [Some [0x02], Some [], Some [], Some [], Some [], None]) []))"
  by (simp add: firmware_version_def await_def sleep_def return_def throw_def getMode_run setMode_run
      clear_command_run writeI2cBlock_run Buffer_from_array_def read_gpr_run MODE_IDLE_def replay_simps register_defs)

section \<open>Mode restoration in firmware_version, on the successful path\<close>

text \<open>
  Claim C5, amended. If the initial mode read is rejected, \<open>firmware_version\<close> fails with
  the bus error after that read. Let the read deliver the byte \<open>m\<close>. Then the result and
  the effects of \<open>firmware_version\<close> are those of issuing the steps up to the read of the
  general-purpose registers in order and stopping at the first transfer that the bus
  rejects, with the bus error and with no later step, the restoring write included; when
  none is rejected, of checking the saved value, \<open>m\<close> read as a signed byte, against the
  valid modes, failing with InvalidMode before any write when it is not one; and then of
  issuing the write that restores \<open>m\<close> and the settle wait, returning the version string
  of the registers read when the write is accepted and the bus error when it is not.
  Hence a run that completes with a result has performed the full sequence, ending with
  the write of \<open>m\<close> to the mode register, and a run that completes with an error has
  stopped at the failing step.
\<close>

theorem firmware_version_restore:
  "(b tr (ReadBlock ENS160_I2CADDR ENS160_CMD_OPMODE 1) = None \<longrightarrow>
      firmware_version b tr =
        (Inl BusError, tr @ [ReadBlock ENS160_I2CADDR ENS160_CMD_OPMODE 1])) \<and>
   (b tr (ReadBlock ENS160_I2CADDR ENS160_CMD_OPMODE 1) = Some [m] \<longrightarrow>
     firmware_version b tr =
       (case run_steps b (take 9 (firmware_steps m)) tr of
          (Some e, t) \<Rightarrow> (Inl e, t)
        | (None, t) \<Rightarrow>
            if sint m \<notin> set VALID_MODES then (Inl (InvalidMode (sint m)), t)
            else
              (case run_steps b (drop 9 (firmware_steps m)) t of
                 (Some e, t') \<Rightarrow> (Inl e, t')
               | (None, t') \<Rightarrow>
                   (Inr (version_string
                          (take 8 (the (b (tr @ take 8 (firmware_steps m))
                                          (ReadBlock ENS160_I2CADDR ENS160_CMD_READGPR 8))
                                   @ replicate 8 0))),
                    t'))) \<and>
     (fst (firmware_version b tr) = Inr v \<longrightarrow>
        snd (firmware_version b tr) = tr @ firmware_steps m \<and> sint m \<in> set VALID_MODES) \<and>
     (fst (firmware_version b tr) = Inl e \<longrightarrow>
        prefix (snd (firmware_version b tr)) (tr @ butlast (firmware_steps m)) \<and>
        (b (butlast (snd (firmware_version b tr))) (last (snd (firmware_version b tr))) = None \<and>
           e = BusError \<or>
         snd (firmware_version b tr) = tr @ take 9 (firmware_steps m) \<and>
           e = InvalidMode (sint m))))"
proof (intro conjI impI)
  assume "b tr (ReadBlock ENS160_I2CADDR ENS160_CMD_OPMODE 1) = None"
  then show "firmware_version b tr =
        (Inl BusError, tr @ [ReadBlock ENS160_I2CADDR ENS160_CMD_OPMODE 1])"
    by (simp add: firmware_mode_read_rejected ENS160_I2CADDR_def ENS160_CMD_OPMODE_def)
next
  assume "b tr (ReadBlock ENS160_I2CADDR ENS160_CMD_OPMODE 1) = Some [m]"
  then have r: "b tr (ReadBlock 0x53 0x10 1) = Some [m]"
    by (simp add: ENS160_I2CADDR_def ENS160_CMD_OPMODE_def)
  show "firmware_version b tr =
       (case run_steps b (take 9 (firmware_steps m)) tr of
          (Some e, t) \<Rightarrow> (Inl e, t)
        | (None, t) \<Rightarrow>
            if sint m \<notin> set VALID_MODES then (Inl (InvalidMode (sint m)), t)
            else
              (case run_steps b (drop 9 (firmware_steps m)) t of
                 (Some e, t') \<Rightarrow> (Inl e, t')
               | (None, t') \<Rightarrow>
                   (Inr (version_string
                          (take 8 (the (b (tr @ take 8 (firmware_steps m))
                                          (ReadBlock ENS160_I2CADDR ENS160_CMD_READGPR 8))
                                   @ replicate 8 0))),
                    t')))"
    using r by (rule firmware_run)
next
  assume "b tr (ReadBlock ENS160_I2CADDR ENS160_CMD_OPMODE 1) = Some [m]"
    and "fst (firmware_version b tr) = Inr v"
  then show "snd (firmware_version b tr) = tr @ firmware_steps m"
    using firmware_success [where b = b and tr = tr and m = m and v = v]
    by (simp add: ENS160_I2CADDR_def ENS160_CMD_OPMODE_def)
next
  assume "b tr (ReadBlock ENS160_I2CADDR ENS160_CMD_OPMODE 1) = Some [m]"
    and "fst (firmware_version b tr) = Inr v"
  then show "sint m \<in> set VALID_MODES"
    using firmware_success [where b = b and tr = tr and m = m and v = v]
    by (simp add: ENS160_I2CADDR_def ENS160_CMD_OPMODE_def)
next
  assume "b tr (ReadBlock ENS160_I2CADDR ENS160_CMD_OPMODE 1) = Some [m]"
    and "fst (firmware_version b tr) = Inl e"
  then show "prefix (snd (firmware_version b tr)) (tr @ butlast (firmware_steps m))"
    using firmware_failure [where b = b and tr = tr and m = m and e = e]
    by (simp add: ENS160_I2CADDR_def ENS160_CMD_OPMODE_def)
next
  assume "b tr (ReadBlock ENS160_I2CADDR ENS160_CMD_OPMODE 1) = Some [m]"
    and "fst (firmware_version b tr) = Inl e"
  then show "b (butlast (snd (firmware_version b tr))) (last (snd (firmware_version b tr))) = None \<and>
           e = BusError \<or>
         snd (firmware_version b tr) = tr @ take 9 (firmware_steps m) \<and>
           e = InvalidMode (sint m)"
    using firmware_failure [where b = b and tr = tr and m = m and e = e]
    by (simp add: ENS160_I2CADDR_def ENS160_CMD_OPMODE_def)
qed

theorem firmware_version_restore_witness:
  "snd (firmware_version
         (replay [Some [0x02], Some [], Some [], Some [], Some [],
                  Some [0, 0, 0, 0, 1, 4, 2, 0], Some []]) []) = firmware_steps 0x02 \<and>
   prefix (snd (firmware_version (replay [Some [0x02], Some [], Some [], Some [], None]) []))
     (butlast (firmware_steps 0x02)) \<and>
   firmware_version (replay [None]) [] =
     (Inl BusError, [ReadBlock ENS160_I2CADDR ENS160_CMD_OPMODE 1])"
proof -
  have r1: "replay [Some [0x02], Some [], Some [], Some [], Some [],
                    Some [0, 0, 0, 0, 1, 4, 2, 0], Some []] []
              (ReadBlock ENS160_I2CADDR ENS160_CMD_OPMODE 1) = Some [0x02]"
    by (simp add: replay_simps)
  have r2: "replay [Some [0x02], Some [], Some [], Some [], None] []
              (ReadBlock ENS160_I2CADDR ENS160_CMD_OPMODE 1) = Some [0x02]"
    by (simp add: replay_simps)
  have r3: "replay [None] [] (ReadBlock ENS160_I2CADDR ENS160_CMD_OPMODE 1) = None"
    by (simp add: replay_simps)
  from r1 firmware_version_restore
      [where b = "replay [Some [0x02], Some [], Some [], Some [], Some [],
                          Some [0, 0, 0, 0, 1, 4, 2, 0], Some []]"
         and tr = "[]" and m = "0x02" and v = "''1.4.2''" and e = BusError]
  have "fst (firmware_version
         (replay [Some [0x02], Some [], Some [], Some [], Some [],
                  Some [0, 0, 0, 0, 1, 4, 2, 0], Some []]) []) = Inr ''1.4.2'' \<longrightarrow>
      snd (firmware_version
         (replay [Some [0x02], Some [], Some [], Some [], Some [],
                  Some [0, 0, 0, 0, 1, 4, 2, 0], Some []]) []) = [] @ firmware_steps 0x02"
    by blast
  then have w1: "snd (firmware_version
         (replay [Some [0x02], Some [], Some [], Some [], Some [],
                  Some [0, 0, 0, 0, 1, 4, 2, 0], Some []]) []) = firmware_steps 0x02"
    by (simp only: firmware_example_runs append_Nil simp_thms)
  from r2 firmware_version_restore
      [where b = "replay [Some [0x02], Some [], Some [], Some [], None]"
         and tr = "[]" and m = "0x02" and v = "''1.4.2''" and e = BusError]
  have "fst (firmware_version (replay [Some [0x02], Some [], Some [], Some [], None]) []) =
          Inl BusError \<longrightarrow>
      prefix (snd (firmware_version (replay [Some [0x02], Some [], Some [], Some [], None]) []))
        ([] @ butlast (firmware_steps 0x02))"
    by blast
  then have w2:
    "prefix (snd (firmware_version (replay [Some [0x02], Some [], Some [], Some [], None]) []))
        (butlast (firmware_steps 0x02))"
    by (simp only: firmware_example_runs append_Nil simp_thms)
  from r3 firmware_version_restore [where b = "replay [None]" and tr = "[]"]
  have w3: "firmware_version (replay [None]) [] =
     (Inl BusError, [] @ [ReadBlock ENS160_I2CADDR ENS160_CMD_OPMODE 1])"
    by blast
  from w1 w2 w3 show ?thesis by simp
qed

section \<open>Identity check\<close>

text \<open>
  Claim C6. \<open>check\<close> issues exactly one transfer, a 2-byte read of the identity
  register, and no write. When the read delivers the pair \<open>[x, y]\<close>, check succeeds if
  the little-endian value \<open>x + 256 * y\<close> equals the part ID \<open>0x0160\<close> and fails with
  IdentityMismatch otherwise; the value equals the part ID exactly for the pair
  \<open>[0x60, 0x01]\<close>.
\<close>

theorem check_identity:
  "snd (check b tr) = tr @ [ReadBlock ENS160_I2CADDR ENS160_CMD_PARTID 2] \<and>
   (b tr (ReadBlock ENS160_I2CADDR ENS160_CMD_PARTID 2) = Some [x, y] \<longrightarrow>
      fst (check b tr) =
        (if uint x + 256 * uint y = ENS160_PARTID then Inr True else Inl IdentityMismatch) \<and>
      (uint x + 256 * uint y = ENS160_PARTID) = (x = 0x60 \<and> y = 0x01))"
  by (simp add: check_run part_id_bytes ENS160_PARTID_def ENS160_I2CADDR_def ENS160_CMD_PARTID_def
      split: option.splits)

theorem check_identity_witness:
  "fst (check (replay [Some [0x60, 0x01]]) []) = Inr True \<and>
   fst (check (replay [Some [0x60, 0x02]]) []) = Inl IdentityMismatch \<and>
   snd (check (replay [Some [0x60, 0x02]]) []) = [ReadBlock ENS160_I2CADDR ENS160_CMD_PARTID 2]"
  using check_identity [of "replay [Some [0x60, 0x01]]" "[]" "0x60" "0x01"]
    check_identity [of "replay [Some [0x60, 0x02]]" "[]" "0x60" "0x02"]
  by (simp add: replay_simps ENS160_PARTID_def)

section \<open>Measurement reads\<close>

text \<open>
  Claim C7 says that AQI, ECO2 and TVOC return the little-endian unsigned value of the
  bytes read, so that a 2-byte read of \<open>[0x00, 0x80]\<close> yields 32768. The driver decodes
  with \<open>readIntLE\<close>, the signed read: on that input ECO2 and TVOC return -32768, and AQI
  returns -128 on the byte \<open>0x80\<close>.
\<close>

theorem measurements_read_signed:
  "ECO2 (replay [Some [0x00, 0x80]]) [] =
     (Inr (- 32768), [ReadBlock ENS160_I2CADDR ENS160_CMD_ECO2 2]) \<and>
   TVOC (replay [Some [0x00, 0x80]]) [] =
     (Inr (- 32768), [ReadBlock ENS160_I2CADDR ENS160_CMD_TVOC 2]) \<and>
   AQI (replay [Some [0x80]]) [] =
     (Inr (- 128), [ReadBlock ENS160_I2CADDR ENS160_CMD_AQI 1])"
  by (simp add: ECO2_def TVOC_def AQI_def io_defs replay_simps readIntLE_def
      ENS160_I2CADDR_def ENS160_CMD_ECO2_def ENS160_CMD_TVOC_def ENS160_CMD_AQI_def)

section \<open>Mode read-back\<close>

text \<open>
  Claim C8 says that getMode returns the byte read from the mode register unchanged, so
  that \<open>0xF0\<close> is returned as \<open>0xF0\<close>. The driver decodes with \<open>readInt8\<close>, the signed
  read: on the byte \<open>0xF0\<close> getMode returns -16.
\<close>

theorem getMode_reset_byte_signed:
  "getMode (replay [Some [0xF0]]) [] =
     (Inr (- 16), [ReadBlock ENS160_I2CADDR ENS160_CMD_OPMODE 1])"
  by (simp add: getMode_run replay_simps ENS160_I2CADDR_def ENS160_CMD_OPMODE_def)

section \<open>Identity failure during initialization\<close>

text \<open>
  Claim C9, as stated: when the identity check fails during initialization, \<open>init\<close>
  fails with DeviceNotDetected. On a device that answers the identity read with
  \<open>[0x61, 0x01]\<close> the check run by \<open>init\<close> fails with IdentityMismatch and \<open>init\<close> does
  not fail with DeviceNotDetected.
\<close>

theorem init_check_failure_counterexample:
  "fst (check (replay [Some [], Some [0x61, 0x01]])
          [Sleep 20, WriteBlock ENS160_I2CADDR ENS160_CMD_OPMODE 1 [0xF0], Sleep 10])
     = Inl IdentityMismatch \<and>
   fst (init (replay [Some [], Some [0x61, 0x01]]) []) \<noteq> Inl DeviceNotDetected"
  by (simp add: init_def run_simps replay_simps register_defs)

section \<open>Identity failure during initialization, the error propagated\<close>

text \<open>
  Claim C9, amended. When the reset step of initialization succeeds and the identity
  check that follows fails with an error, initialization fails with that same error: the
  IdentityMismatch error of \<open>check\<close> on a wrong part ID. This holds for \<open>init\<close> and for the
  compiled \<open>init\<close>.
\<close>

theorem init_propagates_check_error:
  assumes "fst (reset b (tr @ [Sleep 20])) = Inr ok"
    and "fst (check b (snd (reset b (tr @ [Sleep 20])))) = Inl e"
  shows "fst (init b tr) = Inl e \<and> fst (init_js b tr) = Inl e"
  using assms
  by (cases "reset b (tr @ [Sleep 20])"; cases "check b (snd (reset b (tr @ [Sleep 20])))")
     (simp add: init_def init_js_def await_def sleep_def)

theorem init_propagates_check_error_witness:
  "fst (init (replay [Some [], Some [0x61, 0x01]]) []) = Inl IdentityMismatch \<and>
   fst (init_js (replay [Some [], Some [0x61, 0x01]]) []) = Inl IdentityMismatch"
proof -
  have "fst (reset (replay [Some [], Some [0x61, 0x01]]) ([] @ [Sleep 20])) = Inr True"
    by (simp add: reset_run replay_simps)
  moreover have "fst (check (replay [Some [], Some [0x61, 0x01]])
      (snd (reset (replay [Some [], Some [0x61, 0x01]]) ([] @ [Sleep 20])))) = Inl IdentityMismatch"
    by (simp add: reset_run check_run_if replay_simps)
  ultimately show ?thesis by (rule init_propagates_check_error)
qed

section \<open>Boolean results\<close>

text \<open>
  Claim C10. None of the boolean-returning operations (init, reset, setMode, check,
  clear_command, temperature_compensation, humidity_compensation) ever completes with the
  value false: a run either completes with true or with an error. The branch of \<open>init\<close>
  taken when \<open>check\<close> returns a falsy value is unreachable: \<open>init\<close> never fails with its
  DeviceNotDetected error.
\<close>

theorem boolean_results_always_true:
  "fst (init b tr) \<noteq> Inr False \<and>
   fst (init_js b tr) \<noteq> Inr False \<and>
   fst (reset b tr) \<noteq> Inr False \<and>
   fst (setMode b mode tr) \<noteq> Inr False \<and>
   fst (check b tr) \<noteq> Inr False \<and>
   fst (clear_command b tr) \<noteq> Inr False \<and>
   fst (temperature_compensation b temp_c tr) \<noteq> Inr False \<and>
   fst (humidity_compensation b humidity tr) \<noteq> Inr False \<and>
   fst (init b tr) \<noteq> Inl DeviceNotDetected \<and>
   fst (init_js b tr) \<noteq> Inl DeviceNotDetected"
  by (simp only: no_false init_no_false init_no_DeviceNotDetected not_False_eq_True simp_thms)

end
